theory Spec2Isabelle
  imports Main "HOL-Library.AList"
begin

section \<open>Python strings\<close>

text \<open>
  A Python \<open>str\<close> is modelled as a \<open>string\<close>: each \<open>char\<close> stands for one code
  point below 256. \<open>is_space\<close> lists the code points below 256 for which Python's
  \<open>str.isspace\<close> holds (they are what \<open>str.strip()\<close> removes and what the regular
  expression class \<open>\s\<close> matches on a \<open>str\<close> pattern).
\<close>

definition is_space :: "char \<Rightarrow> bool" where
  "is_space c = (of_char c \<in> set [9, 10, 11, 12, 13, 28, 29, 30, 31, 32, 133, 160 :: nat])"

definition lstrip :: "string \<Rightarrow> string" where
  "lstrip s = dropWhile is_space s"

definition rstrip :: "string \<Rightarrow> string" where
  "rstrip s = rev (dropWhile is_space (rev s))"

definition strip :: "string \<Rightarrow> string" where
  "strip s = lstrip (rstrip s)"

definition nl :: string where
  "nl = [CHR 0x0A]"

text \<open>\<open>sep.join(xs)\<close>\<close>

fun join :: "string \<Rightarrow> string list \<Rightarrow> string" where
  "join sep [] = []"
| "join sep [x] = x"
| "join sep (x # y # ys) = x @ sep @ join sep (y # ys)"

text \<open>\<open>s.startswith(p)\<close> and \<open>s.endswith(p)\<close>\<close>

definition startswith :: "string \<Rightarrow> string \<Rightarrow> bool" where
  "startswith s p = (take (length p) s = p)"

definition endswith :: "string \<Rightarrow> string \<Rightarrow> bool" where
  "endswith s p = (length p \<le> length s \<and> drop (length s - length p) s = p)"

section \<open>context.py: fragments and contexts\<close>

datatype FragType = FROZEN | REINFORCE

record Frag =
  frag_text :: string
  frag_ego :: "string option"
  frag_type :: FragType

text \<open>An API chat message \<open>{"role": r, "content": c}\<close>.\<close>

record Message =
  msg_role :: string
  msg_content :: string

text \<open>\<open>_normalize_role(raw, is_first)\<close>, the same local function in both renderers.\<close>

definition normalize_role :: "string option \<Rightarrow> bool \<Rightarrow> string" where
  "normalize_role raw is_first =
     (case raw of
        Some r \<Rightarrow> if r \<in> set [''system'', ''user'', ''assistant''] then r else ''user''
      | None \<Rightarrow> if is_first then ''system'' else ''user'')"

text \<open>
  The loop of \<open>Context.to_api_messages\<close>: the state is
  \<open>(messages, texts, current_role)\<close>, one step per \<open>(i, frag)\<close> of
  \<open>enumerate(self.fragments)\<close>.
\<close>

type_synonym msg_state = "Message list \<times> string list \<times> string option"

fun msg_step :: "bool \<Rightarrow> msg_state \<Rightarrow> nat \<times> Frag \<Rightarrow> msg_state" where
  "msg_step render_dry (messages, texts, current_role) (i, frag) =
     (let normalized_role = normalize_role (frag_ego frag) (i = 0) in
      case current_role of
        None \<Rightarrow> (messages, [frag_text frag], Some normalized_role)
      | Some cur \<Rightarrow>
          if normalized_role = cur then (messages, texts @ [frag_text frag], current_role)
          else
            (let s = concat texts in
             ((if s \<noteq> [] \<or> render_dry
               then messages @ [\<lparr>msg_role = cur, msg_content = strip s\<rparr>]
               else messages),
              [frag_text frag], Some normalized_role)))"

definition flush_tail :: "bool \<Rightarrow> msg_state \<Rightarrow> Message list" where
  "flush_tail render_dry st =
     (case st of (messages, texts, current_role) \<Rightarrow>
        (case current_role of
           None \<Rightarrow> messages
         | Some cur \<Rightarrow>
             (let s = concat texts in
              if s \<noteq> [] \<or> render_dry
              then messages @ [\<lparr>msg_role = cur, msg_content = s\<rparr>]
              else messages)))"

definition to_api_messages :: "bool \<Rightarrow> Frag list \<Rightarrow> Message list" where
  "to_api_messages render_dry fragments =
     flush_tail render_dry (foldl (msg_step render_dry) ([], [], None) (enumerate 0 fragments))"

text \<open>\<open>Context.to_api_string\<close>\<close>

definition im_block :: "Message \<Rightarrow> string" where
  "im_block msg = ''<|im_start|>'' @ msg_role msg @ nl @ msg_content msg @ nl @ ''<|im_end|>''"

definition api_blocks :: "Frag list \<Rightarrow> string list" where
  "api_blocks fragments = map im_block (to_api_messages False fragments)"

definition open_tail :: string where
  "open_tail = ''<|im_start|>assistant''"

definition to_api_string :: "Frag list \<Rightarrow> string" where
  "to_api_string fragments =
     (let blocks = api_blocks fragments in
      if fragments \<noteq> [] then
        (let last_idx = length fragments - 1;
             last_norm = normalize_role (frag_ego (fragments ! last_idx)) (last_idx = 0) in
         if last_norm = ''assistant'' \<and> frag_text (fragments ! last_idx) = []
         then (if blocks \<noteq> [] then join nl (blocks @ [open_tail]) else open_tail)
         else join nl blocks)
      else join nl blocks)"

subsection \<open>The renderer, as the specification describes it\<close>

text \<open>
  The fragments paired with their normalized role, the runs of consecutive fragments
  of one normalized role with their concatenated text, and the messages of these runs:
  every run but the last is stripped, the last one is emitted as it is; a run whose
  text is empty is skipped unless \<open>dry\<close>.
\<close>

definition norm_roles :: "Frag list \<Rightarrow> (string \<times> string) list" where
  "norm_roles frs =
     map (\<lambda>(i, f). (normalize_role (frag_ego f) (i = 0), frag_text f)) (enumerate 0 frs)"

fun role_groups :: "(string \<times> string) list \<Rightarrow> (string \<times> string) list" where
  "role_groups [] = []"
| "role_groups [(r, t)] = [(r, t)]"
| "role_groups ((r, t) # (r', t') # xs) =
     (if r = r' then role_groups ((r, t @ t') # xs) else (r, t) # role_groups ((r', t') # xs))"

fun render_groups :: "bool \<Rightarrow> (string \<times> string) list \<Rightarrow> Message list" where
  "render_groups dry [] = []"
| "render_groups dry [(r, s)] =
     (if s \<noteq> [] \<or> dry then [\<lparr>msg_role = r, msg_content = s\<rparr>] else [])"
| "render_groups dry ((r, s) # g # gs) =
     (if s \<noteq> [] \<or> dry then [\<lparr>msg_role = r, msg_content = strip s\<rparr>] else [])
       @ render_groups dry (g # gs)"

text \<open>The step of the loop on a fragment whose role is already normalized.\<close>

fun pair_step :: "bool \<Rightarrow> msg_state \<Rightarrow> string \<times> string \<Rightarrow> msg_state" where
  "pair_step dry (messages, texts, current_role) (r, t) =
     (case current_role of
        None \<Rightarrow> (messages, [t], Some r)
      | Some cur \<Rightarrow>
          if r = cur then (messages, texts @ [t], current_role)
          else ((if concat texts \<noteq> [] \<or> dry
                 then messages @ [\<lparr>msg_role = cur, msg_content = strip (concat texts)\<rparr>]
                 else messages), [t], Some r))"

subsection \<open>Example contexts\<close>

definition closed_then_open :: "Frag list" where
  "closed_then_open =
     [\<lparr>frag_text = ''hi'', frag_ego = Some ''assistant'', frag_type = REINFORCE\<rparr>,
      \<lparr>frag_text = [], frag_ego = Some ''assistant'', frag_type = REINFORCE\<rparr>]"

definition open_only :: "Frag list" where
  "open_only =
     [\<lparr>frag_text = ''Q'', frag_ego = Some ''user'', frag_type = FROZEN\<rparr>,
      \<lparr>frag_text = [], frag_ego = Some ''assistant'', frag_type = FROZEN\<rparr>]"

definition padded_turns :: "Frag list" where
  "padded_turns =
     [\<lparr>frag_text = '' a '', frag_ego = Some ''user'', frag_type = FROZEN\<rparr>,
      \<lparr>frag_text = '' b '', frag_ego = Some ''assistant'', frag_type = REINFORCE\<rparr>,
      \<lparr>frag_text = '' c '', frag_ego = Some ''user'', frag_type = FROZEN\<rparr>]"

section \<open>holoware.py: spans and templates\<close>

text \<open>
  The fields every \<open>Span\<close> has. \<open>span_id\<close> is the field \<open>id\<close> (the human handle),
  \<open>kwargs\<close> a dict in insertion order. A \<open>uuid\<close> is a string: either the one a builder
  passes, or a freshly generated one.
\<close>

record span_base =
  uuid :: string
  span_id :: string
  kargs :: "string list"
  kwargs :: "(string \<times> string) list"

text \<open>
  The body of a \<open>ClassSpan\<close> is a \<open>Holoware\<close>; a template is modelled by its list of
  spans (its name, code and file path play no part in parsing or evaluation).
\<close>

datatype span =
    ContextResetSpan span_base (train: bool)
  | EgoSpan span_base (ego: string)
  | SampleSpan span_base (fence: string)
  | TextSpan span_base (span_text: string)
  | ObjSpan span_base (var_ids: "string list")
  | ClassSpan span_base (class_name: string) (body: "span list option")

fun base_of :: "span \<Rightarrow> span_base" where
  "base_of (ContextResetSpan b _) = b"
| "base_of (EgoSpan b _) = b"
| "base_of (SampleSpan b _) = b"
| "base_of (TextSpan b _) = b"
| "base_of (ObjSpan b _) = b"
| "base_of (ClassSpan b _ _) = b"

fun is_reset :: "span \<Rightarrow> bool" where
  "is_reset (ContextResetSpan _ _) = True"
| "is_reset _ = False"

subsection \<open>\<open>Holoware.trained_contexts\<close>\<close>

text \<open>The loop state is \<open>(current, contexts)\<close>.\<close>

fun trained_step :: "nat \<times> nat list \<Rightarrow> nat \<times> span \<Rightarrow> nat \<times> nat list" where
  "trained_step (current, contexts) (i, ContextResetSpan b tr) =
     (let current' = (if i > 0 then current + 1 else current)
      in (current', if tr then contexts @ [current'] else contexts))"
| "trained_step (current, contexts) (i, _) = (current, contexts)"

definition trained_contexts :: "span list \<Rightarrow> nat list" where
  "trained_contexts spans = snd (foldl trained_step (0, []) (enumerate 0 spans))"

text \<open>
  As the specification words it: the resets in the order met, the k-th one (from 0)
  standing for context k when the template begins with a reset and for context k + 1
  when it does not (context 0 is then the implicit initial one); the trained contexts
  are those of the resets with \<open>train\<close> set.
\<close>

definition reset_flags :: "span list \<Rightarrow> bool list" where
  "reset_flags spans = map train (filter is_reset spans)"

definition begins_with_reset :: "span list \<Rightarrow> bool" where
  "begins_with_reset spans = (case spans of [] \<Rightarrow> False | s # _ \<Rightarrow> is_reset s)"

definition trained_spec :: "span list \<Rightarrow> nat list" where
  "trained_spec spans =
     map fst (filter snd
       (enumerate (if begins_with_reset spans then 0 else 1) (reset_flags spans)))"

text \<open>A span's base with the defaults of the dataclass, for a given \<open>uuid\<close>.\<close>

definition new_base :: "string \<Rightarrow> span_base" where
  "new_base u = \<lparr>uuid = u, span_id = [], kargs = [], kwargs = []\<rparr>"

text \<open>A template of three contexts, the first two opened by \<open>+++\<close>, the third by \<open>===\<close>.\<close>

definition three_contexts :: "span list" where
  "three_contexts =
     [ContextResetSpan (new_base ''r0'') True, TextSpan (new_base ''t0'') ''Compress.'',
      ContextResetSpan (new_base ''r1'') True, TextSpan (new_base ''t1'') ''Decompress.'',
      ContextResetSpan (new_base ''r2'') False, TextSpan (new_base ''t2'') ''Evaluate.'']"

section \<open>holophore.py: the runtime state\<close>

datatype error =
    ClassNotFound string
  | InitTargetNotClass
  | KeyError string
  | AssertionError
  | EmptyClassSpan string
  | EvaluationFailed nat
  | SpanNotFound string
  | IndexError

text \<open>
  User code is a collaborator. A bound object is described by what the engine asks of
  it: whether it is truthy, whether it defines \<open>__holo__\<close> and \<open>__holo_end__\<close>, and what
  \<open>__holo__(phore, span)\<close> returns: \<open>None\<close> for a falsy return value (the handler then
  inserts nothing), \<open>Some s\<close> for a truthy one whose \<open>str()\<close> is \<open>s\<close>. Side effects of
  the hooks on the phore are not modelled. A class is described by its \<open>str()\<close> and by
  the object that phase 1 binds to a span of this class: the class itself when it is
  holostatic, else the instance its constructor returns, or what \<open>__holo_init__\<close>
  replaces that by.
\<close>

record bound_obj =
  obj_truthy :: bool
  has_holo :: bool
  holo_result :: "string option"
  has_holo_end :: bool

record holo_class =
  class_str :: string
  bound :: bound_obj

text \<open>
  The values of \<open>env\<close>: a string, a class, or any other object, given by its \<open>str()\<close>
  and its truth value.
\<close>

datatype pyval = PyStr string | PyClass holo_class | PyObj string bool

fun truthy :: "pyval \<Rightarrow> bool" where
  "truthy (PyStr s) = (s \<noteq> [])"
| "truthy (PyClass c) = True"
| "truthy (PyObj s t) = t"

fun py_str :: "pyval \<Rightarrow> string" where
  "py_str (PyStr s) = s"
| "py_str (PyClass c) = class_str c"
| "py_str (PyObj s t) = s"

text \<open>
  The loom: the external sampler \<open>sample(rollout, stop_sequences)\<close>, which sees the
  contexts of the rollout and returns a string or null, and the class registry
  \<open>errloom.lib.discovery.get_class\<close>.
\<close>

record loom =
  loom_sample :: "Frag list list \<Rightarrow> string list \<Rightarrow> string option"
  loom_get_class :: "string \<Rightarrow> holo_class option"

text \<open>
  \<open>Frag\<close> objects are shared between the contexts of the rollout and the lists of
  \<open>span_fragments\<close>, and the whitespace pass mutates them: \<open>store\<close> holds the objects,
  the contexts and \<open>span_fragments\<close> hold their addresses (indices into \<open>store\<close>).
  \<open>span_bindings\<close> and \<open>span_fragments\<close> are dicts in insertion order.
\<close>

record holophore =
  store :: "Frag list"
  contexts :: "nat list list"
  env :: "string \<Rightarrow> pyval option"
  span_bindings :: "(string \<times> bound_obj) list"
  span_fragments :: "(string \<times> nat list) list"
  holowares :: "span list list"
  active_span :: "span option"
  cur_ego :: string
  errors :: nat

text \<open>\<open>Holophore.__init__\<close>, on a rollout without contexts.\<close>

definition new_holophore :: "(string \<Rightarrow> pyval option) \<Rightarrow> holophore" where
  "new_holophore e =
     \<lparr>store = [], contexts = [], env = e, span_bindings = [], span_fragments = [],
      holowares = [], active_span = None, cur_ego = ''system'', errors = 0\<rparr>"

text \<open>
  Modelled from the spec: the rollout (\<open>errloom.tapestry.Rollout\<close>, not among the
  sources). \<open>new_context()\<close> appends an empty context; \<open>add_frag(ego, type, text)\<close>
  appends a fragment to the active (last) context, opening a first context when there
  is none, and returns the fragment.
\<close>

definition new_context :: "holophore \<Rightarrow> holophore" where
  "new_context h = h\<lparr>contexts := contexts h @ [Nil]\<rparr>"

definition rollout_add_frag ::
  "string option \<Rightarrow> FragType \<Rightarrow> string \<Rightarrow> holophore \<Rightarrow> nat \<times> holophore" where
  "rollout_add_frag e ty txt h =
     (let a = length (store h);
          cs = (if contexts h = [] then [Nil] else contexts h)
      in (a, h\<lparr>store := store h @ [\<lparr>frag_text = txt, frag_ego = e, frag_type = ty\<rparr>],
               contexts := butlast cs @ [last cs @ [a]]\<rparr>))"

text \<open>The contexts of the rollout, as lists of fragments.\<close>

definition rollout_view :: "holophore \<Rightarrow> Frag list list" where
  "rollout_view h = map (map (\<lambda>a. store h ! a)) (contexts h)"

text \<open>\<open>span_fragments.get(uuid, FragList.EMPTY)\<close> and \<open>FragList.string\<close>\<close>

definition frags_of :: "holophore \<Rightarrow> string \<Rightarrow> nat list" where
  "frags_of h u = (case map_of (span_fragments h) u of None \<Rightarrow> [] | Some l \<Rightarrow> l)"

definition frag_string :: "holophore \<Rightarrow> nat list \<Rightarrow> string" where
  "frag_string h l = concat (map (\<lambda>a. frag_text (store h ! a)) l)"

text \<open>\<open>Holophore.add_frag\<close>, \<open>add_reinforced\<close>, \<open>add_masked\<close>\<close>

definition add_frag :: "FragType \<Rightarrow> string \<Rightarrow> holophore \<Rightarrow> holophore" where
  "add_frag ty txt h =
     (case rollout_add_frag (Some (cur_ego h)) ty txt h of (a, h1) \<Rightarrow>
        (case active_span h1 of
           None \<Rightarrow> h1
         | Some sp \<Rightarrow>
             h1\<lparr>span_fragments :=
                  AList.update (uuid (base_of sp)) (frags_of h1 (uuid (base_of sp)) @ [a])
                    (span_fragments h1)\<rparr>))"

definition add_reinforced :: "string \<Rightarrow> holophore \<Rightarrow> holophore" where
  "add_reinforced content h = add_frag REINFORCE content h"

definition add_masked :: "string \<Rightarrow> holophore \<Rightarrow> holophore" where
  "add_masked content h = add_frag FROZEN content h"

text \<open>\<open>Holophore.get_class\<close>: \<open>env.get(classname)\<close>, and the registry when that is falsy.\<close>

definition get_class :: "loom \<Rightarrow> holophore \<Rightarrow> string \<Rightarrow> pyval option" where
  "get_class lm h classname =
     (case env h classname of
        Some v \<Rightarrow> if truthy v then Some v else map_option PyClass (loom_get_class lm classname)
      | None \<Rightarrow> map_option PyClass (loom_get_class lm classname))"

text \<open>\<open>Holophore.find_span\<close>: \<open>None\<close> stands for its \<open>ValueError\<close>.\<close>

definition find_span :: "holophore \<Rightarrow> string \<Rightarrow> span option" where
  "find_span h uid = find (\<lambda>sp. uuid (base_of sp) = uid) (concat (holowares h))"

section \<open>holoware_handlers.py: the span handlers\<close>

text \<open>\<open>SpanHandler.ObjSpan\<close>: the loop over \<open>span.var_ids\<close>.\<close>

fun ObjSpan_handler :: "holophore \<Rightarrow> string list \<Rightarrow> holophore" where
  "ObjSpan_handler h [] = h"
| "ObjSpan_handler h (var_id # rest) =
     (case env h var_id of
        None \<Rightarrow> ObjSpan_handler h rest
      | Some v \<Rightarrow>
          ObjSpan_handler
            (add_masked nl (add_masked ''</obj>'' (add_masked (py_str v)
               (add_masked (''<obj id='' @ var_id @ ''>'') h))))
            rest)"

text \<open>
  \<open>SpanHandler.SampleSpan\<close>. \<open>open_fence\<close> is the opening tag added before the
  sampler is called and \<open>stop_sequences\<close> the stops passed to it; \<open>sample_text\<close> is the
  text that is reinforced, \<open>sample_payload\<close> the payload that is bound into \<open>env\<close>
  (before \<open>strip()\<close>). Nothing in the \<open>try\<close> block raises on a string sample.
\<close>

definition sample_text :: "string \<Rightarrow> string \<Rightarrow> string" where
  "sample_text fnc sample =
     (if fnc \<noteq> [] then
        (let closing_tag = ''</'' @ fnc @ ''>''
         in if endswith sample closing_tag then sample else sample @ closing_tag)
      else sample)"

definition sample_payload :: "string \<Rightarrow> string \<Rightarrow> string" where
  "sample_payload fnc sample =
     (if fnc \<noteq> [] then
        (let open_tag = ''<'' @ fnc @ ''>'';
             close_tag = ''</'' @ fnc @ ''>''
         in if startswith sample open_tag \<and> endswith sample close_tag
            then drop (length open_tag) (take (length sample - length close_tag) sample)
            else
              (let p1 = (if endswith sample close_tag
                         then take (length sample - length close_tag) sample else sample)
               in if startswith p1 open_tag then drop (length open_tag) p1 else p1))
      else sample)"

definition open_fence :: "string \<Rightarrow> holophore \<Rightarrow> holophore" where
  "open_fence fnc h = (if fnc \<noteq> [] then add_masked (''<'' @ fnc @ ''>'') h else h)"

definition stop_sequences :: "string \<Rightarrow> string list" where
  "stop_sequences fnc = (if fnc \<noteq> [] then [''</'' @ fnc @ ''>''] else [])"

definition SampleSpan_handler :: "loom \<Rightarrow> holophore \<Rightarrow> span_base \<Rightarrow> string \<Rightarrow> holophore" where
  "SampleSpan_handler lm h b fnc =
     (let h1 = open_fence fnc h
      in case loom_sample lm (rollout_view h1) (stop_sequences fnc) of
           None \<Rightarrow> h1
         | Some sample \<Rightarrow>
             if sample = [] then h1
             else
               (let h2 = add_reinforced (sample_text fnc sample) h1
                in if span_id b \<noteq> []
                   then h2\<lparr>env := (env h2)(span_id b \<mapsto> PyStr (strip (sample_payload fnc sample)))\<rparr>
                   else h2))"

section \<open>holoware.py: evaluation\<close>

text \<open>\<open>s.rstrip("\n")\<close>, and \<open>p in s\<close> for strings.\<close>

definition rstrip_nl :: "string \<Rightarrow> string" where
  "rstrip_nl s = rev (dropWhile (\<lambda>c. c = CHR 0x0A) (rev s))"

fun contains :: "string \<Rightarrow> string \<Rightarrow> bool" where
  "contains [] p = (p = [])"
| "contains (c # cs) p = (startswith (c # cs) p \<or> contains cs p)"

text \<open>
  The code points below 256 that the class \<open>\w\<close> matches on a \<open>str\<close> pattern: the
  alphanumeric ones and the underscore.
\<close>

definition is_word :: "char \<Rightarrow> bool" where
  "is_word c =
     (let n = (of_char c :: nat)
      in (48 \<le> n \<and> n \<le> 57) \<or> (65 \<le> n \<and> n \<le> 90) \<or> n = 95 \<or> (97 \<le> n \<and> n \<le> 122)
         \<or> n \<in> set [170, 178, 179, 181, 185, 186, 188, 189, 190]
         \<or> (192 \<le> n \<and> n \<le> 214) \<or> (216 \<le> n \<and> n \<le> 246) \<or> 248 \<le> n)"

text \<open>
  \<open>tag_pattern.search(s)\<close>, for the pattern \<^verbatim>\<open><(\w+)[^>]*>.*?</\1>|<obj\s+id=.*?>\<close>
  with DOTALL. The first alternative matches at an opening angle bracket when some
  non-empty prefix \<open>g\<close> of the word characters after it has \<^verbatim>\<open></g>\<close> somewhere
  after the first closing angle bracket; the second matches at \<^verbatim>\<open><obj\<close> followed by
  whitespace and \<^verbatim>\<open>id=\<close>, with a closing angle bracket somewhere after.
\<close>

definition tag_block_at :: "string \<Rightarrow> bool" where
  "tag_block_at s =
     (case s of
        [] \<Rightarrow> False
      | c # rest \<Rightarrow>
          c = CHR ''<'' \<and>
          (let k = length (takeWhile is_word rest);
               from_gt = dropWhile (\<lambda>c. c \<noteq> CHR ''>'') rest
           in from_gt \<noteq> [] \<and>
              list_ex (\<lambda>n. contains (tl from_gt) (''</'' @ take n rest @ ''>'')) [1..<Suc k]))"

definition obj_open_at :: "string \<Rightarrow> bool" where
  "obj_open_at s =
     (startswith s ''<obj'' \<and>
      (let r = drop 4 s; r' = dropWhile is_space r
       in length r' < length r \<and> startswith r' ''id='' \<and> CHR ''>'' \<in> set (drop 3 r')))"

fun tag_pattern_search :: "string \<Rightarrow> bool" where
  "tag_pattern_search [] = False"
| "tag_pattern_search (c # cs) =
     (tag_block_at (c # cs) \<or> obj_open_at (c # cs) \<or> tag_pattern_search cs)"

text \<open>
  The local function \<open>optimize_block(i)\<close> of \<open>Holoware.__call__\<close>, on the spans of the
  template. \<open>count_head\<close> is written with \<open>rstrip\<close> in the source, as \<open>count_tail\<close> is.
\<close>

definition count_tail :: "string \<Rightarrow> nat" where
  "count_tail s = length s - length (rstrip_nl s)"

definition count_head :: "string \<Rightarrow> nat" where
  "count_head s = length s - length (rstrip_nl s)"

definition set_text :: "nat \<Rightarrow> string \<Rightarrow> holophore \<Rightarrow> holophore" where
  "set_text a txt h = h\<lparr>store := (store h)[a := (store h ! a)\<lparr>frag_text := txt\<rparr>]\<rparr>"

definition optimize_block :: "span list \<Rightarrow> int \<Rightarrow> holophore \<Rightarrow> error + holophore" where
  "optimize_block spans i h =
     (if i < 2 then Inr h
      else if \<not> nat i < length spans then Inl IndexError
      else
        (let f1 = frags_of h (uuid (base_of (spans ! nat (i - 2))));
             f2 = frags_of h (uuid (base_of (spans ! nat (i - 1))));
             f3 = frags_of h (uuid (base_of (spans ! nat i)));
             s1 = strip (frag_string h f1);
             s2 = strip (frag_string h f2);
             s3 = strip (frag_string h f3);
             lc = count_tail s1 + count_head s2;
             rc = count_tail s2 + count_head s3
         in if tag_pattern_search s2 then
              (if f2 = [] \<and> (0 < 3 - lc \<or> 0 < 3 - rc) then Inl IndexError
               else
                 (let h1 = set_text (hd f2)
                             (replicate (3 - lc) (CHR 0x0A) @ frag_text (store h ! hd f2)) h;
                      h2 = set_text (last f2)
                             (frag_text (store h1 ! last f2) @ replicate (3 - rc) (CHR 0x0A)) h1
                  in Inr h2))
            else Inr h))"

text \<open>
  The local function \<open>optimize_think_tags(i)\<close>. \<open>think_sub\<close> is
  \<open>re.sub('<think>\s*\n*\s*</think>', '<think></think>', s)\<close>. The function clears the
  span's fragment list and appends a new \<open>Frag\<close> to it; the fragments of the contexts
  are not touched. No call of it occurs in \<open>Holoware.__call__\<close>.
\<close>

definition think_match :: "string \<Rightarrow> string option" where
  "think_match s =
     (if startswith s ''<think>'' then
        (let r = dropWhile is_space (drop 7 s)
         in if startswith r ''</think>'' then Some (drop 8 r) else None)
      else None)"

function think_sub :: "string \<Rightarrow> string" where
  "think_sub [] = []"
| "think_sub (c # cs) =
     (case think_match (c # cs) of
        Some rest \<Rightarrow> ''<think></think>'' @ think_sub rest
      | None \<Rightarrow> c # think_sub cs)"
  by pat_completeness auto
termination
proof (relation "measure length")
  fix c cs rest
  assume "think_match (c # cs) = Some rest"
  then have "length rest \<le> length (dropWhile is_space (drop 7 (c # cs)))"
    by (auto simp: think_match_def Let_def split: if_splits)
  also have "\<dots> \<le> length (drop 7 (c # cs))" by (rule length_dropWhile_le)
  also have "\<dots> < length (c # cs)" by simp
  finally show "(rest, c # cs) \<in> measure length" by simp
qed simp_all

definition optimize_think_tags :: "span list \<Rightarrow> int \<Rightarrow> holophore \<Rightarrow> holophore" where
  "optimize_think_tags spans i h =
     (if i < 0 \<or> \<not> nat i < length spans then h
      else
        (let u = uuid (base_of (spans ! nat i));
             f = frags_of h u
         in if f = [] then h
            else
              (let s = frag_string h f
               in if tag_pattern_search s then
                    h\<lparr>store := store h @
                         [\<lparr>frag_text = think_sub s, frag_ego = None, frag_type = FROZEN\<rparr>],
                      span_fragments := AList.update u [length (store h)] (span_fragments h)\<rparr>
                  else h)))"

text \<open>Phase 1 of \<open>Holoware.__call__\<close>: the class spans are bound.\<close>

fun phase1 :: "loom \<Rightarrow> span list \<Rightarrow> holophore \<Rightarrow> error + holophore" where
  "phase1 lm [] h = Inr h"
| "phase1 lm (ClassSpan b cn bd # rest) h =
     (case get_class lm h cn of
        None \<Rightarrow> Inl (ClassNotFound cn)
      | Some (PyClass c) \<Rightarrow>
          phase1 lm rest (h\<lparr>span_bindings := AList.update (uuid b) (bound c) (span_bindings h)\<rparr>)
      | Some _ \<Rightarrow> Inl InitTargetNotClass)"
| "phase1 lm (_ # rest) h = phase1 lm rest h"

text \<open>
  Phase 3: each binding with \<open>__holo_end__\<close> and each key of \<open>span_fragments\<close> is
  looked up with \<open>find_span\<close>, which raises when no template on the stack has the span.
\<close>

definition phase3 :: "holophore \<Rightarrow> error + holophore" where
  "phase3 h =
     (case filter (\<lambda>u. find_span h u = None)
             (map fst (filter (\<lambda>p. has_holo_end (snd p)) (span_bindings h))
                @ map fst (span_fragments h)) of
        [] \<Rightarrow> Inr h
      | u # _ \<Rightarrow> Inl (SpanNotFound u))"

text \<open>
  \<open>SpanHandler.handle\<close> with the handlers of the six span classes, the main walk of
  phase 2 (\<open>i\<close> is the index of the first of the spans still to come), and
  \<open>Holoware.__call__\<close>.
\<close>

function handle :: "loom \<Rightarrow> holophore \<Rightarrow> span \<Rightarrow> error + holophore"
  and main_walk :: "loom \<Rightarrow> span list \<Rightarrow> nat \<Rightarrow> span list \<Rightarrow> holophore \<Rightarrow> error + holophore"
  and call_holoware :: "loom \<Rightarrow> span list \<Rightarrow> holophore \<Rightarrow> error + holophore" where
  "handle lm h (TextSpan b t) = Inr (add_masked t h)"
| "handle lm h (ObjSpan b vs) = Inr (ObjSpan_handler h vs)"
| "handle lm h (SampleSpan b fnc) = Inr (SampleSpan_handler lm h b fnc)"
| "handle lm h (ContextResetSpan b tr) = Inr ((new_context h)\<lparr>cur_ego := ''system''\<rparr>)"
| "handle lm h (EgoSpan b e) = Inr (h\<lparr>cur_ego := e\<rparr>)"
| "handle lm h (ClassSpan b cn bd) =
     (case get_class lm h cn of
        None \<Rightarrow> Inl (ClassNotFound cn)
      | Some _ \<Rightarrow>
          (case map_of (span_bindings h) (uuid b) of
             None \<Rightarrow> Inl (KeyError (uuid b))
           | Some obj \<Rightarrow>
               if has_holo obj then
                 (if \<not> obj_truthy obj then Inl AssertionError
                  else (case holo_result obj of
                          None \<Rightarrow> Inr h
                        | Some s \<Rightarrow> Inr (add_masked s h)))
               else (case bd of
                       Some bspans \<Rightarrow> call_holoware lm bspans h
                     | None \<Rightarrow> Inl (EmptyClassSpan cn))))"
| "main_walk lm spans i [] h = Inr h"
| "main_walk lm spans i (sp # rest) h =
     (case handle lm (h\<lparr>active_span := Some sp\<rparr>) sp of
        Inl e \<Rightarrow> Inl e
      | Inr h1 \<Rightarrow>
          (case optimize_block spans (int i - 1) h1 of
             Inl e \<Rightarrow> Inl e
           | Inr h2 \<Rightarrow> main_walk lm spans (Suc i) rest h2))"
| "call_holoware lm spans h =
     (case phase1 lm spans (h\<lparr>holowares := holowares h @ [spans]\<rparr>) of
        Inl e \<Rightarrow> Inl e
      | Inr h1 \<Rightarrow>
          (case main_walk lm spans 0 spans h1 of
             Inl e \<Rightarrow> Inl e
           | Inr h2 \<Rightarrow>
               (let h3 = h2\<lparr>active_span := None\<rparr>
                in if errors h3 > 0 then Inl (EvaluationFailed (errors h3))
                   else (case phase3 h3 of
                           Inl e \<Rightarrow> Inl e
                         | Inr h4 \<Rightarrow> Inr (h4\<lparr>holowares := remove1 spans (holowares h4)\<rparr>)))))"
  by pat_completeness auto
termination
  by (relation "measure (\<lambda>x. case x of
        Inl (lm, h, sp) \<Rightarrow> 3 * size sp
      | Inr (Inl (lm, spans, i, rest, h)) \<Rightarrow> 3 * size_list size rest + 1
      | Inr (Inr (lm, spans, h)) \<Rightarrow> 3 * size_list size spans + 2)") auto

section \<open>Notions used to state the properties of evaluation\<close>

text \<open>The fragments that a step from \<open>h\<close> to \<open>h'\<close> adds to the store.\<close>

definition emitted :: "holophore \<Rightarrow> holophore \<Rightarrow> Frag list" where
  "emitted h h' = drop (length (store h)) (store h')"

text \<open>
  The mask and the ego of every fragment of the store; \<open>keeps h h'\<close> says that
  \<open>errors\<close> and the masks and egos of the fragments that \<open>h\<close> has are the same in \<open>h'\<close>.
\<close>

definition mask_of :: "holophore \<Rightarrow> (FragType \<times> string option) list" where
  "mask_of h = map (\<lambda>f. (frag_type f, frag_ego f)) (store h)"

definition keeps :: "holophore \<Rightarrow> holophore \<Rightarrow> bool" where
  "keeps h h' = (errors h' = errors h \<and> take (length (store h)) (mask_of h') = mask_of h)"

text \<open>
  As the specification words the payload of a fenced sample: the sample without its
  leading opening tag and without its trailing closing tag, each when the sample has it.
\<close>

definition strip_fence :: "string \<Rightarrow> string \<Rightarrow> string" where
  "strip_fence F s =
     (let a = (if startswith s (''<'' @ F @ ''>'') then length (''<'' @ F @ ''>'') else 0);
          z = (if endswith s (''</'' @ F @ ''>'') then length (''</'' @ F @ ''>'') else 0)
      in drop a (take (length s - z) s))"

subsection \<open>Example looms, environments and templates\<close>

text \<open>
  A sampler that returns null, one that returns \<open>mocked_sample\<close> as the mock of the
  tests does, and one whose sample carries both fence tags.
\<close>

definition null_loom :: loom where
  "null_loom = \<lparr>loom_sample = (\<lambda>r st. None), loom_get_class = (\<lambda>n. None)\<rparr>"

definition mock_loom :: loom where
  "mock_loom = \<lparr>loom_sample = (\<lambda>r st. Some ''mocked_sample''), loom_get_class = (\<lambda>n. None)\<rparr>"

definition echo_loom :: loom where
  "echo_loom = \<lparr>loom_sample = (\<lambda>r st. Some ''<compress> data </compress>''),
                 loom_get_class = (\<lambda>n. None)\<rparr>"

definition two_vars :: "string \<Rightarrow> pyval option" where
  "two_vars = [''a'' \<mapsto> PyStr ''1'', ''b'' \<mapsto> PyStr ''2'']"

definition compressed_base :: span_base where
  "compressed_base = (new_base ''compressed'')\<lparr>span_id := ''compressed''\<rparr>"

text \<open>
  The spans of \<^verbatim>\<open><|@_@|><think>\n</think>\<close> and of \<^verbatim>\<open><|@_@ <>think|>\<close> (the builder
  gives the ego and the sampler of a tag without an id the uuid \<open>""\<close>).
\<close>

definition empty_think :: "span list" where
  "empty_think = [EgoSpan (new_base []) ''assistant'',
                  TextSpan (new_base ''t'') (''<think>'' @ nl @ ''</think>'')]"

definition fenced_sample :: "span list" where
  "fenced_sample = [EgoSpan (new_base []) ''assistant'', SampleSpan (new_base []) ''think'']"

section \<open>holoware_parser.py: the parser\<close>

datatype parse_error =
    UnclosedTag
  | NotAtSpanStart
  | QuoteError
  | EmptyAngleAttr
  | NoRoleForSpan
  | OutOfFuel

text \<open>
  What the parser takes from outside the repository: \<open>shlex.split\<close> (\<open>None\<close> for its
  \<open>ValueError\<close>), \<open>str.splitlines(True)\<close>, \<open>textwrap.dedent\<close>, and the uuid that the
  n-th call of \<open>uuid.uuid4()\<close> yields.
\<close>

record pylib =
  shlex_split :: "string \<Rightarrow> string list option"
  splitlines :: "string \<Rightarrow> string list"
  dedent :: "string \<Rightarrow> string"
  gen_uuid :: "nat \<Rightarrow> string"

text \<open>\<open>s.split(c)\<close> for a one-character separator, \<open>s.split(c, 1)\<close>, \<open>s.replace(old, new)\<close>,
  \<open>s.find(p, start)\<close> and \<open>s.lstrip(' ')\<close>.\<close>

fun split_char :: "char \<Rightarrow> string \<Rightarrow> string list" where
  "split_char sep [] = [Nil]"
| "split_char sep (c # cs) =
     (if c = sep then [] # split_char sep cs
      else (case split_char sep cs of
              [] \<Rightarrow> [c # Nil]
            | l # ls \<Rightarrow> (c # l) # ls))"

definition split_once :: "char \<Rightarrow> string \<Rightarrow> string list" where
  "split_once sep s =
     (if sep \<in> set s
      then [takeWhile (\<lambda>c. c \<noteq> sep) s, tl (dropWhile (\<lambda>c. c \<noteq> sep) s)]
      else [s])"

function replace :: "string \<Rightarrow> string \<Rightarrow> string \<Rightarrow> string" where
  "replace [] old new = []"
| "replace (c # cs) old new =
     (if old \<noteq> [] \<and> startswith (c # cs) old
      then new @ replace (drop (length old) (c # cs)) old new
      else c # replace cs old new)"
  by pat_completeness auto
termination
  by (relation "measure (\<lambda>(s, old, new). length s)") auto

fun find_idx :: "string \<Rightarrow> string \<Rightarrow> nat option" where
  "find_idx [] p = (if p = [] then Some 0 else None)"
| "find_idx (c # cs) p =
     (if startswith (c # cs) p then Some 0 else map_option Suc (find_idx cs p))"

definition find_from :: "string \<Rightarrow> string \<Rightarrow> nat \<Rightarrow> nat option" where
  "find_from s p start =
     (if start \<le> length s then map_option (\<lambda>k. k + start) (find_idx (drop start s) p) else None)"

definition lstrip_spaces :: "string \<Rightarrow> string" where
  "lstrip_spaces s = dropWhile (\<lambda>c. c = CHR '' '') s"

definition bslash :: char where
  "bslash = CHR 0x5C"

text \<open>The code points below 256 for which \<open>str.isupper\<close> holds.\<close>

definition is_upper :: "char \<Rightarrow> bool" where
  "is_upper c =
     (let n = (of_char c :: nat)
      in (65 \<le> n \<and> n \<le> 90) \<or> (192 \<le> n \<and> n \<le> 214) \<or> (216 \<le> n \<and> n \<le> 222))"

subsection \<open>The grammar and the span builders\<close>

definition is_ego_or_sampler :: "string \<Rightarrow> (string \<times> string) list \<Rightarrow> bool" where
  "is_ego_or_sampler base kw =
     (base \<in> set [''o_o'', ''@_@'', ''x_x''] \<or> ''fence'' \<in> fst ` set kw \<or> ''<>'' \<in> fst ` set kw)"

definition is_context_reset :: "string \<Rightarrow> bool" where
  "is_context_reset base =
     (base \<in> set [''+++'', ''==='', ''---'', ''^^^'', ''###'', ''@@@'',
                   [CHR 0x22, CHR 0x22, CHR 0x22], ''***'', ''%%%''])"

definition EGO_MAP :: "(string \<times> string) list" where
  "EGO_MAP = [(''o_o'', ''user''), (''@_@'', ''assistant''), (''x_x'', ''system'')]"

text \<open>
  \<open>parse_span_tag\<close>, on the parts that \<open>shlex.split\<close> returns: the loop over
  \<open>parts[1:]\<close> with the state \<open>(kargs, kwargs)\<close>.
\<close>

fun tag_args ::
  "string list \<Rightarrow> string list \<times> (string \<times> string) list
     \<Rightarrow> parse_error + string list \<times> (string \<times> string) list" where
  "tag_args [] acc = Inr acc"
| "tag_args (part # rest) (ka, kw) =
     (if CHR ''='' \<in> set part then
        (case split_once (CHR ''='') part of
           [key, v] \<Rightarrow> tag_args rest (ka, AList.update key v kw)
         | _ \<Rightarrow> tag_args rest (ka, kw))
      else if startswith part ''<>'' then
        (if length part > 2 then tag_args rest (ka, AList.update ''<>'' (drop 2 part) kw)
         else Inl EmptyAngleAttr)
      else tag_args rest (ka @ [part], kw))"

definition parse_span_tag ::
  "pylib \<Rightarrow> string \<Rightarrow> parse_error + string \<times> string list \<times> (string \<times> string) list" where
  "parse_span_tag lib tag =
     (case shlex_split lib tag of
        None \<Rightarrow> Inl QuoteError
      | Some [] \<Rightarrow> Inr ([], [], [])
      | Some (base_span # rest) \<Rightarrow>
          (case tag_args rest ([], []) of
             Inl e \<Rightarrow> Inl e
           | Inr (ka, kw) \<Rightarrow> Inr (base_span, ka, kw)))"

text \<open>
  \<open>Span.set_args(k, kw, {})\<close> on a span with the base \<open>b\<close>: a keyword that names a
  field of the dataclass is assigned to that field, the others are the span's kwargs.
  \<open>own\<close> are the names of the fields of the subclass beside those of \<open>Span\<close>; the
  builders below read the keywords \<open>class_name\<close> and \<open>var_ids\<close> themselves (\<open>body\<close> is
  set to \<open>None\<close> after \<open>set_args\<close>). A string assigned to \<open>kargs\<close> or \<open>var_ids\<close> is read as the list of
  its characters, as iteration over it gives.
\<close>

definition chars :: "string \<Rightarrow> string list" where
  "chars s = map (\<lambda>c. [c]) s"

fun set_base_field :: "span_base \<Rightarrow> string \<times> string \<Rightarrow> span_base" where
  "set_base_field b (key, v) =
     (if key = ''uuid'' then b\<lparr>uuid := v\<rparr>
      else if key = ''id'' then b\<lparr>span_id := v\<rparr>
      else if key = ''kargs'' then b\<lparr>kargs := chars v\<rparr>
      else b)"

definition base_fields :: "string list" where
  "base_fields = [''uuid'', ''id'', ''kargs'', ''kwargs'']"

definition set_args ::
  "string list \<Rightarrow> span_base \<Rightarrow> string list \<Rightarrow> (string \<times> string) list \<Rightarrow> span_base" where
  "set_args own b k kw =
     (foldl set_base_field (b\<lparr>kargs := k\<rparr>) kw)
       \<lparr>kwargs := filter (\<lambda>p. fst p \<notin> set (base_fields @ own)) kw\<rparr>"

text \<open>The last value given to the keyword \<open>key\<close>, or \<open>d\<close>.\<close>

definition kw_get :: "(string \<times> string) list \<Rightarrow> string \<Rightarrow> string \<Rightarrow> string" where
  "kw_get kw key d = (case map_of kw key of None \<Rightarrow> d | Some v \<Rightarrow> v)"

text \<open>The builders return the spans they append to \<open>out\<close>; \<open>u\<close> is a fresh uuid.\<close>

definition build_class :: "string \<Rightarrow> string \<Rightarrow> string list \<Rightarrow> (string \<times> string) list \<Rightarrow> span list" where
  "build_class u base ka kw =
     [ClassSpan (set_args [''class_name'', ''body''] (new_base u) ka kw)
        (kw_get kw ''class_name'' base) None]"

definition build_obj :: "string \<Rightarrow> string \<Rightarrow> string list \<Rightarrow> (string \<times> string) list \<Rightarrow> span list" where
  "build_obj u base ka kw =
     [ObjSpan (set_args [''var_ids''] (new_base u) ka kw)
        (case map_of kw ''var_ids'' of
           None \<Rightarrow> map strip (split_char (CHR ''|'') base)
         | Some v \<Rightarrow> chars v)]"

definition build_context :: "string \<Rightarrow> bool \<Rightarrow> span list" where
  "build_context u tr = [ContextResetSpan (new_base u) tr]"

definition build_ego_or_sampler ::
  "string \<Rightarrow> string list \<Rightarrow> (string \<times> string) list \<Rightarrow> span list" where
  "build_ego_or_sampler base ka kw =
     (let parts = split_once (CHR '':'') base;
          e = hd parts;
          sid = (if length parts > 1 then parts ! 1 else []);
          sampler_kwargs = filter (\<lambda>p. fst p \<notin> set [''<>'', ''fence'']) kw;
          fnc = (if kw_get kw ''<>'' [] \<noteq> [] then kw_get kw ''<>'' [] else kw_get kw ''fence'' [])
      in EgoSpan ((new_base sid)) (kw_get EGO_MAP e e)
         # (if fnc \<noteq> []
            then [SampleSpan \<lparr>uuid = sid, span_id = sid, kargs = ka, kwargs = sampler_kwargs\<rparr> fnc]
            else []))"

text \<open>
  \<open>build_span\<close>: the spans of a tag, and how many uuids were generated. \<open>n\<close> is the
  number of uuids generated before.
\<close>

definition build_span :: "pylib \<Rightarrow> nat \<Rightarrow> string \<Rightarrow> parse_error + span list \<times> nat" where
  "build_span lib n spantext =
     (let tag_content = strip spantext
      in if tag_content = [] then Inr ([], n)
         else
           (case parse_span_tag lib tag_content of
              Inl e \<Rightarrow> Inl e
            | Inr (base, ka, kw) \<Rightarrow>
                if is_ego_or_sampler base kw then Inr (build_ego_or_sampler base ka kw, n)
                else if is_context_reset base
                then Inr (build_context (gen_uuid lib n) (base = ''+++''), Suc n)
                else if base \<noteq> [] then
                  (if is_upper (hd base) then Inr (build_class (gen_uuid lib n) base ka kw, Suc n)
                   else Inr (build_obj (gen_uuid lib n) base ka kw, Suc n))
                else Inr ([], n)))"

subsection \<open>The parser state\<close>

text \<open>
  A \<open>HolowareParser\<close>: the code, the position, the spans of \<open>self.ware\<close>, the current
  ego, and the number of uuids generated so far.
\<close>

record parser =
  p_code :: string
  p_pos :: nat
  p_spans :: "span list"
  p_ego :: "string option"
  p_start_with_system :: bool
  p_next :: nat

definition ego_set :: "parser \<Rightarrow> bool" where
  "ego_set p = (case p_ego p of None \<Rightarrow> False | Some e \<Rightarrow> e \<noteq> [])"

text \<open>\<open>filter_comments\<close>\<close>

definition filter_comments :: "string \<Rightarrow> string" where
  "filter_comments content =
     join nl (filter (\<lambda>line. \<not> startswith (strip line) ''#'') (split_char (CHR 0x0A) content))"

text \<open>
  \<open>_add_implicit_ego_if_needed\<close>: \<open>implicit_scan\<close> is the loop that looks for a text
  span with content before any ego or reset.
\<close>

fun implicit_scan :: "span list \<Rightarrow> bool" where
  "implicit_scan [] = False"
| "implicit_scan (TextSpan b t # rest) = (strip t \<noteq> [])"
| "implicit_scan (EgoSpan b e # rest) = False"
| "implicit_scan (ContextResetSpan b tr # rest) = False"
| "implicit_scan (_ # rest) = implicit_scan rest"

definition add_implicit_ego_if_needed :: "pylib \<Rightarrow> parser \<Rightarrow> parser" where
  "add_implicit_ego_if_needed lib p =
     (if ego_set p then p
      else if implicit_scan (p_spans p)
      then p\<lparr>p_spans := EgoSpan (new_base (gen_uuid lib (p_next p))) ''system'' # p_spans p,
             p_ego := Some ''system'', p_next := Suc (p_next p)\<rparr>
      else p)"

text \<open>\<open>_add_span\<close>\<close>

fun is_text :: "span \<Rightarrow> bool" where
  "is_text (TextSpan _ _) = True"
| "is_text _ = False"

fun needs_ego :: "span \<Rightarrow> bool" where
  "needs_ego (SampleSpan _ _) = True"
| "needs_ego (ObjSpan _ _) = True"
| "needs_ego (ClassSpan _ _ _) = True"
| "needs_ego _ = False"

text \<open>The part of \<open>_add_span\<close> after the ego check.\<close>

fun add_span_tail :: "parser \<Rightarrow> span \<Rightarrow> parser" where
  "add_span_tail p (EgoSpan b e) =
     (if p_ego p = Some e then p
      else p\<lparr>p_spans := p_spans p @ [EgoSpan b e], p_ego := Some e\<rparr>)"
| "add_span_tail p (ContextResetSpan b tr) =
     p\<lparr>p_spans := p_spans p @ [ContextResetSpan b tr], p_ego := None\<rparr>"
| "add_span_tail p (TextSpan b t) =
     (if p_spans p = [] then
        (if strip t = [] then p else p\<lparr>p_spans := [TextSpan b t]\<rparr>)
      else
        (case last (p_spans p) of
           TextSpan lb lt \<Rightarrow> p\<lparr>p_spans := butlast (p_spans p) @ [TextSpan lb (lt @ t)]\<rparr>
         | _ \<Rightarrow>
             if strip (lstrip t) = [] then p
             else p\<lparr>p_spans := p_spans p @ [TextSpan b (lstrip t)]\<rparr>))"
| "add_span_tail p sp = p\<lparr>p_spans := p_spans p @ [sp]\<rparr>"

definition add_span :: "pylib \<Rightarrow> parser \<Rightarrow> span \<Rightarrow> parse_error + parser" where
  "add_span lib p sp =
     (if \<not> ego_set p \<and> needs_ego sp then
        (let p1 = add_implicit_ego_if_needed lib p
         in if \<not> ego_set p1 then Inl NoRoleForSpan else Inr (add_span_tail p1 sp))
      else Inr (add_span_tail p sp))"

fun add_spans :: "pylib \<Rightarrow> parser \<Rightarrow> span list \<Rightarrow> parse_error + parser" where
  "add_spans lib p [] = Inr p"
| "add_spans lib p (sp # rest) =
     (case add_span lib p sp of Inl e \<Rightarrow> Inl e | Inr p1 \<Rightarrow> add_spans lib p1 rest)"

text \<open>\<open>_parse_text\<close>: a text span never makes \<open>_add_span\<close> raise.\<close>

definition parse_text :: "pylib \<Rightarrow> string \<Rightarrow> parser \<Rightarrow> parser" where
  "parse_text lib txt p =
     (if txt = [] then p
      else
        (let processed_text =
               replace (replace txt [bslash, bslash] [bslash]) (bslash # ''<|'') ''<|''
         in if processed_text = [] then p
            else add_span_tail (p\<lparr>p_next := Suc (p_next p)\<rparr>)
                   (TextSpan (new_base (gen_uuid lib (p_next p))) processed_text)))"

text \<open>\<open>_find_next_span_start\<close>: \<open>None\<close> stands for \<open>-1\<close>.\<close>

definition num_backslashes :: "string \<Rightarrow> nat \<Rightarrow> nat" where
  "num_backslashes code found_pos =
     length (takeWhile (\<lambda>c. c = bslash) (rev (take found_pos code)))"

function find_next_span_start :: "string \<Rightarrow> nat \<Rightarrow> nat option" where
  "find_next_span_start code pos =
     (case find_from code ''<|'' pos of
        None \<Rightarrow> None
      | Some found_pos \<Rightarrow>
          if num_backslashes code found_pos mod 2 = 1
          then find_next_span_start code (found_pos + 1)
          else Some found_pos)"
  by pat_completeness auto
termination
proof (relation "measure (\<lambda>(code, pos). Suc (length code) - pos)")
  fix code :: string and pos found_pos :: nat
  assume f: "find_from code ''<|'' pos = Some found_pos"
  have idx: "find_idx s ''<|'' = Some k \<Longrightarrow> k < length s" for s k
  proof (induction s arbitrary: k)
    case Nil
    then show ?case by simp
  next
    case (Cons c cs)
    then show ?case by (auto split: if_splits)
  qed
  from f obtain k where k: "find_idx (drop pos code) ''<|'' = Some k" "found_pos = k + pos"
    "pos \<le> length code"
    by (auto simp: find_from_def split: if_splits)
  from idx[OF k(1)] have "k < length code - pos" by simp
  with k show "((code, found_pos + 1), (code, pos)) \<in> measure (\<lambda>(code, pos). Suc (length code) - pos)"
    by simp
qed simp

text \<open>\<open>read_until_span_end\<close>: the text of the tag and the parser after it.\<close>

definition read_until_span_end :: "parser \<Rightarrow> parse_error + string \<times> parser" where
  "read_until_span_end p =
     (if take 2 (drop (p_pos p) (p_code p)) \<noteq> ''<|'' then Inl NotAtSpanStart
      else
        (let start = p_pos p + 2
         in case find_from (p_code p) ''|>'' start of
              None \<Rightarrow> Inl UnclosedTag
            | Some stop \<Rightarrow>
                Inr (take (stop - start) (drop start (p_code p)), p\<lparr>p_pos := stop + 2\<rparr>)))"

text \<open>\<open>_read_indented_block_content\<close>: the block, if any, and the position after it.\<close>

definition indent_of :: "string \<Rightarrow> nat" where
  "indent_of line = length line - length (lstrip_spaces line)"

definition read_indented_block_content :: "pylib \<Rightarrow> string \<Rightarrow> nat \<Rightarrow> string option \<times> nat" where
  "read_indented_block_content lib code start_pos =
     (case splitlines lib (drop start_pos code) of
        [] \<Rightarrow> (None, start_pos)
      | first_line # others \<Rightarrow>
          (let skip = (strip first_line = []);
               start_pos' = (if skip then start_pos + length first_line else start_pos);
               lines = (if skip then others else first_line # others)
           in case lines of
                [] \<Rightarrow> (None, start_pos')
              | l # _ \<Rightarrow>
                  (let indentation = indent_of l
                   in if indentation = 0 then (None, start_pos')
                      else
                        (let block_lines =
                               takeWhile (\<lambda>line. strip line = [] \<or> indentation \<le> indent_of line)
                                 lines
                         in if block_lines = [] then (None, start_pos')
                            else (Some (concat block_lines),
                                  start_pos' + length (concat block_lines))))))"

text \<open>\<open>_finalize_text_span\<close>: the loop over \<open>enumerate(self.ware.spans)\<close>, which pops from
  the list it runs over; \<open>i\<close> is the index of the iterator and \<open>lst\<close> the index of
  \<open>last_span\<close>.\<close>

fun append_text :: "span \<Rightarrow> string \<Rightarrow> span" where
  "append_text (TextSpan b t) extra = TextSpan b (t @ extra)"
| "append_text sp extra = sp"

function finalize_loop :: "span list \<Rightarrow> nat \<Rightarrow> nat option \<Rightarrow> span list" where
  "finalize_loop spans i lst =
     (if i < length spans then
        (case (spans ! i, lst) of
           (TextSpan b t, Some j) \<Rightarrow>
             if is_text (spans ! j)
             then finalize_loop (take i (spans[j := append_text (spans ! j) t]) @ drop (Suc i) spans)
                    (Suc i) lst
             else finalize_loop spans (Suc i) (Some i)
         | _ \<Rightarrow> finalize_loop spans (Suc i) (Some i))
      else spans)"
  by pat_completeness auto
termination
  by (relation "measure (\<lambda>(spans, i, lst). length spans - i)") auto

definition finalize_text_span :: "parser \<Rightarrow> parser" where
  "finalize_text_span p = p\<lparr>p_spans := finalize_loop (p_spans p) 0 None\<rparr>"

text \<open>
  One tag of the loop of \<open>parse\<close>: the text before the tag, \<open>read_until_span_end\<close>,
  and the first half of \<open>_parse_span\<close> (the spans of the tag are built and added).
\<close>

definition scan_tag :: "pylib \<Rightarrow> parser \<Rightarrow> nat \<Rightarrow> parse_error + parser" where
  "scan_tag lib p next_span_pos =
     (let p1 = (if p_pos p < next_span_pos
                then parse_text lib (take (next_span_pos - p_pos p) (drop (p_pos p) (p_code p))) p
                else p)
      in case read_until_span_end (p1\<lparr>p_pos := next_span_pos\<rparr>) of
           Inl e \<Rightarrow> Inl e
         | Inr (spantext, p2) \<Rightarrow>
             (case build_span lib (p_next p2) spantext of
                Inl e \<Rightarrow> Inl e
              | Inr (spanbuf, n) \<Rightarrow> add_spans lib (p2\<lparr>p_next := n\<rparr>) spanbuf))"

text \<open>
  The second half of \<open>_parse_span\<close> with \<open>_parse_indented_block\<close>: when the last span
  is a class span followed by an indented block that is not blank after \<open>dedent\<close>, the
  class span (its base and name), the dedented block and the position after the block.
\<close>

definition body_block :: "pylib \<Rightarrow> parser \<Rightarrow> (span_base \<times> string \<times> string \<times> nat) option" where
  "body_block lib p =
     (if p_spans p = [] then None
      else
        (case last (p_spans p) of
           ClassSpan b cn bd \<Rightarrow>
             (case read_indented_block_content lib (p_code p) (p_pos p) of
                (None, q) \<Rightarrow> None
              | (Some block_content, end_pos) \<Rightarrow>
                  if strip (dedent lib block_content) = [] then None
                  else Some (b, cn, dedent lib block_content, end_pos))
         | _ \<Rightarrow> None))"

text \<open>
  \<open>HolowareParser.parse\<close> and its loop. The parser of an indented block is a new
  parser on the dedented block; \<open>fuel\<close> bounds the iterations of the loop and the depth
  of the blocks together. \<open>parse_ware\<close> returns the spans and the count of uuids.
\<close>

fun parse_loop :: "nat \<Rightarrow> pylib \<Rightarrow> parser \<Rightarrow> parse_error + parser"
  and parse_ware :: "nat \<Rightarrow> pylib \<Rightarrow> nat \<Rightarrow> string \<Rightarrow> parse_error + span list \<times> nat" where
  "parse_loop 0 lib p = Inl OutOfFuel"
| "parse_loop (Suc fuel) lib p =
     (if p_pos p < length (p_code p) then
        (case find_next_span_start (p_code p) (p_pos p) of
           None \<Rightarrow> Inr (parse_text lib (drop (p_pos p) (p_code p)) p)
         | Some next_span_pos \<Rightarrow>
             (case scan_tag lib p next_span_pos of
                Inl e \<Rightarrow> Inl e
              | Inr p3 \<Rightarrow>
                  (case body_block lib p3 of
                     None \<Rightarrow> parse_loop fuel lib p3
                   | Some (b, cn, block, end_pos) \<Rightarrow>
                       (case parse_ware fuel lib (p_next p3) block of
                          Inl e \<Rightarrow> Inl e
                        | Inr (bspans, n') \<Rightarrow>
                            parse_loop fuel lib
                              (p3\<lparr>p_spans := butlast (p_spans p3) @ [ClassSpan b cn (Some bspans)],
                                  p_pos := end_pos, p_next := n'\<rparr>)))))
      else Inr p)"
| "parse_ware fuel lib n code =
     (case parse_loop fuel lib
             \<lparr>p_code = filter_comments code, p_pos = 0, p_spans = [], p_ego = None,
              p_start_with_system = False, p_next = n\<rparr> of
        Inl e \<Rightarrow> Inl e
      | Inr p \<Rightarrow>
          (let p1 = (if p_start_with_system p then add_implicit_ego_if_needed lib p else p);
               p2 = finalize_text_span p1
           in Inr (p_spans p2, p_next p2)))"

text \<open>\<open>Holoware.parse(content)\<close>: the spans of the template.\<close>

definition parse :: "nat \<Rightarrow> pylib \<Rightarrow> string \<Rightarrow> parse_error + span list" where
  "parse fuel lib content = map_sum id fst (parse_ware fuel lib 0 content)"

subsection \<open>An example library\<close>

text \<open>
  For templates of one line whose tags have no quotes and no backslashes: there
  \<open>shlex.split\<close> splits a tag at its blanks, and no indented block follows a tag.
\<close>

fun blank_split :: "string \<Rightarrow> string \<Rightarrow> string list" where
  "blank_split acc [] = (if acc = [] then [] else [acc])"
| "blank_split acc (c # cs) =
     (if c = CHR '' '' then (if acc = [] then [] else [acc]) @ blank_split [] cs
      else blank_split (acc @ [c]) cs)"

definition plain_lib :: pylib where
  "plain_lib = \<lparr>shlex_split = (\<lambda>s. Some (blank_split [] s)),
                 splitlines = (\<lambda>s. []), dedent = (\<lambda>s. s),
                 gen_uuid = (\<lambda>n. replicate (Suc n) (CHR ''u''))\<rparr>"

section \<open>Properties of the renderers\<close>

subsection \<open>Stripping\<close>

lemma strip_Nil: "strip [] = []"
  by (simp add: strip_def lstrip_def rstrip_def)

lemma rstrip_lstrip_rstrip: "rstrip (lstrip (rstrip s)) = lstrip (rstrip s)"
proof -
  define u where "u = rstrip s"
  have u: "u = [] \<or> \<not> is_space (last u)"
    unfolding u_def rstrip_def
    by (metis dropWhile_eq_Nil_conv hd_dropWhile hd_rev rev_is_Nil_conv rev_rev_ident)
  have "rstrip (dropWhile is_space u) = dropWhile is_space u"
  proof (cases "dropWhile is_space u = []")
    case True
    then show ?thesis unfolding True rstrip_def by simp
  next
    case False
    then have l: "last (dropWhile is_space u) = last u"
      by (metis last_appendR takeWhile_dropWhile_id)
    from False have "u \<noteq> []" by auto
    with u have "\<not> is_space (last u)" by simp
    with l False have "\<not> is_space (hd (rev (dropWhile is_space u)))"
      by (simp add: hd_rev)
    then have "dropWhile is_space (rev (dropWhile is_space u)) = rev (dropWhile is_space u)"
      using False by (metis dropWhile_eq_self_iff hd_in_set list.set_sel(1) rev_is_Nil_conv)
    then show ?thesis by (simp add: rstrip_def)
  qed
  then show ?thesis by (simp add: lstrip_def u_def)
qed

lemma strip_idem: "strip (strip s) = strip s"
  unfolding strip_def by (simp add: rstrip_lstrip_rstrip) (simp add: lstrip_def)

subsection \<open>\<open>to_api_messages\<close> groups by normalized role\<close>

lemma msg_step_norm:
  "msg_step dry st (i, f) = pair_step dry st (normalize_role (frag_ego f) (i = 0), frag_text f)"
  by (cases st) (auto simp: Let_def split: option.splits)

lemma foldl_msg_step:
  "foldl (msg_step dry) st (enumerate n frs) =
   foldl (pair_step dry) st
     (map (\<lambda>(i, f). (normalize_role (frag_ego f) (i = 0), frag_text f)) (enumerate n frs))"
  by (induction frs arbitrary: st n)
     (simp_all add: msg_step_norm del: pair_step.simps msg_step.simps)

lemma role_groups_ne: "xs \<noteq> [] \<Longrightarrow> role_groups xs \<noteq> []"
  by (induction xs rule: role_groups.induct) auto

lemma flush_foldl:
  "flush_tail dry (foldl (pair_step dry) (msgs, texts, Some r) xs) =
     msgs @ render_groups dry (role_groups ((r, concat texts) # xs))"
proof (induction xs arbitrary: msgs texts r)
  case Nil
  then show ?case by (simp add: flush_tail_def Let_def)
next
  case (Cons x xs)
  obtain r' t' where x: "x = (r', t')" by (cases x)
  show ?case
  proof (cases "r' = r")
    case True
    with Cons x show ?thesis by simp
  next
    case False
    have "role_groups ((r', t') # xs) \<noteq> []" by (rule role_groups_ne) simp
    then obtain g gs where g: "role_groups ((r', t') # xs) = g # gs"
      by (cases "role_groups ((r', t') # xs)") auto
    from False Cons x g show ?thesis by auto
  qed
qed

lemma to_api_messages_groups:
  "to_api_messages dry frs = render_groups dry (role_groups (norm_roles frs))"
proof (cases frs)
  case Nil
  then show ?thesis by (simp add: to_api_messages_def norm_roles_def flush_tail_def)
next
  case (Cons f fs)
  have "to_api_messages dry frs =
        flush_tail dry (foldl (pair_step dry) ([], [], None) (norm_roles frs))"
    by (simp add: to_api_messages_def norm_roles_def foldl_msg_step)
  also have "\<dots> = flush_tail dry (foldl (pair_step dry)
        ([], [frag_text f], Some (normalize_role (frag_ego f) True)) (tl (norm_roles frs)))"
    using Cons by (simp add: norm_roles_def)
  also have "\<dots> = render_groups dry (role_groups (norm_roles frs))"
    using Cons by (simp add: flush_foldl norm_roles_def)
  finally show ?thesis .
qed

lemma render_groups_butlast_stripped:
  "m \<in> set (butlast (render_groups dry gs)) \<Longrightarrow> msg_content m = strip (msg_content m)"
proof (induction dry gs rule: render_groups.induct)
  case (3 dry r s g gs)
  then show ?case
    by (auto simp: strip_idem butlast_append split: if_splits)
qed (auto split: if_splits)

lemma render_groups_last:
  "gs \<noteq> [] \<Longrightarrow> last gs = (r, s) \<Longrightarrow> s \<noteq> [] \<or> dry \<Longrightarrow>
   render_groups dry gs \<noteq> [] \<and> last (render_groups dry gs) = \<lparr>msg_role = r, msg_content = s\<rparr>"
  by (induction dry gs rule: render_groups.induct) (auto split: if_splits)

text \<open>
  C10. \<open>to_api_messages\<close> emits one message per run of fragments of one normalized
  role: the message of every run but the last has its content stripped, the message
  flushed at the end carries the concatenated text as it is. So every message but the
  last is free of leading and trailing whitespace, and when the text of the last run
  has leading or trailing whitespace, the last message still has it.
\<close>

theorem to_api_messages_only_tail_unstripped:
  "to_api_messages dry frs = render_groups dry (role_groups (norm_roles frs))
   \<and> (\<forall>m \<in> set (butlast (to_api_messages dry frs)). msg_content m = strip (msg_content m))
   \<and> (\<forall>r s. role_groups (norm_roles frs) \<noteq> []
          \<and> last (role_groups (norm_roles frs)) = (r, s) \<and> strip s \<noteq> s
        \<longrightarrow> to_api_messages dry frs \<noteq> []
            \<and> last (to_api_messages dry frs) = \<lparr>msg_role = r, msg_content = s\<rparr>)"
proof (intro conjI allI impI ballI)
  show g: "to_api_messages dry frs = render_groups dry (role_groups (norm_roles frs))"
    by (rule to_api_messages_groups)
  fix m assume "m \<in> set (butlast (to_api_messages dry frs))"
  then show "msg_content m = strip (msg_content m)"
    unfolding g by (rule render_groups_butlast_stripped)
next
  fix r s
  assume a: "role_groups (norm_roles frs) \<noteq> []
    \<and> last (role_groups (norm_roles frs)) = (r, s) \<and> strip s \<noteq> s"
  then have "s \<noteq> []" using strip_Nil by auto
  with a have "render_groups dry (role_groups (norm_roles frs)) \<noteq> []
      \<and> last (render_groups dry (role_groups (norm_roles frs))) =
          \<lparr>msg_role = r, msg_content = s\<rparr>"
    by (intro render_groups_last) auto
  then show "to_api_messages dry frs \<noteq> []"
    "last (to_api_messages dry frs) = \<lparr>msg_role = r, msg_content = s\<rparr>"
    by (simp_all add: to_api_messages_groups)
qed

subsection \<open>The open assistant tail of \<open>to_api_string\<close>\<close>

lemma join_snoc: "join sep (xs @ [t]) = (if xs = [] then t else join sep xs @ sep @ t)"
  by (induction sep xs rule: join.induct) auto

lemma join_snoc_endswith: "endswith (join sep (xs @ [t])) t"
  by (simp add: join_snoc endswith_def)

text \<open>
  C9, as amended. When the last raw fragment normalizes to "assistant" and has empty
  text, the output is the closed blocks of all the messages of \<open>to_api_messages()\<close>
  followed by the open tail \<open><|im_start|>assistant\<close>, joined by newlines; so it ends
  with the open tail. No block is taken away: the tail is added to the blocks.
\<close>

theorem to_api_string_open_tail:
  assumes "frs \<noteq> []"
    and "normalize_role (frag_ego (last frs)) (length frs = 1) = ''assistant''"
    and "frag_text (last frs) = []"
  shows "to_api_string frs = join nl (api_blocks frs @ [open_tail])
         \<and> endswith (to_api_string frs) open_tail"
proof -
  have idx: "frs ! (length frs - 1) = last frs"
    using assms(1) by (simp add: last_conv_nth)
  have z: "(length frs - 1 = 0) = (length frs = 1)"
    using assms(1) by (cases frs) auto
  have "to_api_string frs = join nl (api_blocks frs @ [open_tail])"
    unfolding to_api_string_def Let_def idx z using assms by simp
  then show ?thesis by (simp add: join_snoc_endswith)
qed

theorem to_api_string_open_tail_witness:
  "to_api_string open_only = join nl (api_blocks open_only @ [open_tail])
   \<and> endswith (to_api_string open_only) open_tail"
proof -
  have 1: "open_only \<noteq> []" by (simp add: open_only_def)
  have 2: "normalize_role (frag_ego (last open_only)) (length open_only = 1) = ''assistant''"
    by (simp add: open_only_def normalize_role_def)
  have 3: "frag_text (last open_only) = []" by (simp add: open_only_def)
  show ?thesis by (rule to_api_string_open_tail [OF 1 2 3])
qed

text \<open>
  C9 as stated fails: the last fragment is an empty assistant fragment, and the output
  holds the closed block of the final assistant turn and, after it, the open tail.
\<close>

theorem to_api_string_keeps_closed_block:
  "normalize_role (frag_ego (last closed_then_open)) (length closed_then_open = 1) = ''assistant''
   \<and> frag_text (last closed_then_open) = []
   \<and> to_api_string closed_then_open =
       (''<|im_start|>assistant'' @ nl @ ''hi'' @ nl @ ''<|im_end|>'') @ nl
         @ ''<|im_start|>assistant''"
  by (simp add: to_api_string_def closed_then_open_def api_blocks_def to_api_messages_def
      flush_tail_def normalize_role_def im_block_def open_tail_def Let_def)

theorem to_api_messages_only_tail_unstripped_witness:
  "role_groups (norm_roles padded_turns) \<noteq> []
   \<and> last (role_groups (norm_roles padded_turns)) = (''user'', '' c '')
   \<and> strip '' c '' \<noteq> '' c ''
   \<and> last (to_api_messages False padded_turns) = \<lparr>msg_role = ''user'', msg_content = '' c ''\<rparr>
   \<and> to_api_messages False padded_turns =
       [\<lparr>msg_role = ''user'', msg_content = ''a''\<rparr>,
        \<lparr>msg_role = ''assistant'', msg_content = ''b''\<rparr>,
        \<lparr>msg_role = ''user'', msg_content = '' c ''\<rparr>]"
proof -
  have g: "role_groups (norm_roles padded_turns) =
      [(''user'', '' a ''), (''assistant'', '' b ''), (''user'', '' c '')]"
    by (simp add: padded_turns_def norm_roles_def normalize_role_def)
  have s: "strip '' c '' \<noteq> '' c ''"
    by (simp add: strip_def lstrip_def rstrip_def is_space_def)
  have h: "role_groups (norm_roles padded_turns) \<noteq> []
      \<and> last (role_groups (norm_roles padded_turns)) = (''user'', '' c '')
      \<and> strip '' c '' \<noteq> '' c ''"
    using s by (simp add: g)
  note t = to_api_messages_only_tail_unstripped [of False padded_turns]
  from t have "to_api_messages False padded_turns =
      render_groups False (role_groups (norm_roles padded_turns))" by blast
  then have eq: "to_api_messages False padded_turns =
       [\<lparr>msg_role = ''user'', msg_content = ''a''\<rparr>,
        \<lparr>msg_role = ''assistant'', msg_content = ''b''\<rparr>,
        \<lparr>msg_role = ''user'', msg_content = '' c ''\<rparr>]"
    unfolding g by (simp add: strip_def lstrip_def rstrip_def is_space_def)
  from t h have "last (to_api_messages False padded_turns) =
      \<lparr>msg_role = ''user'', msg_content = '' c ''\<rparr>" by blast
  then show ?thesis using h eq by blast
qed

section \<open>Properties of templates\<close>

lemma trained_foldl_pos:
  "n > 0 \<Longrightarrow>
   foldl trained_step (cur, acc) (enumerate n xs) =
     (cur + length (filter is_reset xs),
      acc @ map fst (filter snd (enumerate (Suc cur) (map train (filter is_reset xs)))))"
proof (induction xs arbitrary: cur acc n)
  case Nil
  then show ?case by simp
next
  case (Cons x xs)
  then show ?case by (cases x) (simp_all add: Let_def)
qed

lemma trained_contexts_spec: "trained_contexts spans = trained_spec spans"
proof (cases spans)
  case Nil
  then show ?thesis
    by (simp add: trained_contexts_def trained_spec_def reset_flags_def)
next
  case (Cons x xs)
  then show ?thesis
    by (cases x)
       (simp_all add: trained_contexts_def trained_spec_def reset_flags_def
          begins_with_reset_def trained_foldl_pos Let_def)
qed

text \<open>
  C8. \<open>trained_contexts\<close> is the list of the context indices of the resets that have
  \<open>train\<close> set, the k-th reset standing for context k when the template begins with a
  reset (and for context k + 1 otherwise); a template whose first span is the \<open>+++\<close>
  reset has index 0 among its trained contexts.
\<close>

theorem trained_contexts_indices:
  "trained_contexts spans = trained_spec spans
   \<and> (\<forall>b rest. spans = ContextResetSpan b True # rest \<longrightarrow> 0 \<in> set (trained_contexts spans))"
proof (intro conjI allI impI)
  show "trained_contexts spans = trained_spec spans" by (rule trained_contexts_spec)
next
  fix b rest assume "spans = ContextResetSpan b True # rest"
  then show "0 \<in> set (trained_contexts spans)"
    by (simp add: trained_contexts_spec trained_spec_def reset_flags_def begins_with_reset_def)
qed

theorem trained_contexts_indices_witness:
  "trained_contexts three_contexts = [0, 1] \<and> 0 \<in> set (trained_contexts three_contexts)"
proof -
  note t = trained_contexts_indices [of three_contexts]
  have e: "trained_spec three_contexts = [0, 1]"
    by (simp add: trained_spec_def three_contexts_def reset_flags_def begins_with_reset_def)
  from t have 1: "trained_contexts three_contexts = [0, 1]" using e by simp
  have "three_contexts = ContextResetSpan (new_base ''r0'') True # tl three_contexts"
    by (simp add: three_contexts_def)
  with t have "0 \<in> set (trained_contexts three_contexts)" by blast
  with 1 show ?thesis by blast
qed

section \<open>Properties of evaluation\<close>

subsection \<open>What the handlers add to the store\<close>

lemma add_frag_store:
  "store (add_frag ty txt h) =
     store h @ [\<lparr>frag_text = txt, frag_ego = Some (cur_ego h), frag_type = ty\<rparr>]"
  by (simp add: add_frag_def rollout_add_frag_def Let_def split: option.splits)

lemma add_frag_fields:
  "errors (add_frag ty txt h) = errors h" "env (add_frag ty txt h) = env h"
  "cur_ego (add_frag ty txt h) = cur_ego h" "active_span (add_frag ty txt h) = active_span h"
  by (simp_all add: add_frag_def rollout_add_frag_def Let_def split: option.splits)

lemma store_add_masked:
  "store (add_masked t h) = store h @ [\<lparr>frag_text = t, frag_ego = Some (cur_ego h), frag_type = FROZEN\<rparr>]"
  by (simp add: add_masked_def add_frag_store)

lemma store_add_reinforced:
  "store (add_reinforced t h) = store h @ [\<lparr>frag_text = t, frag_ego = Some (cur_ego h), frag_type = REINFORCE\<rparr>]"
  by (simp add: add_reinforced_def add_frag_store)

lemma emitted_append: "store h' = store h @ fs \<Longrightarrow> emitted h h' = fs"
  by (simp add: emitted_def)

lemma store_ObjSpan:
  "\<exists>fs. store (ObjSpan_handler h vs) = store h @ fs \<and> (\<forall>f \<in> set fs. frag_type f = FROZEN)"
proof (induction vs arbitrary: h)
  case Nil
  show ?case by simp
next
  case (Cons v vs)
  show ?case
  proof (cases "env h v")
    case None
    with Cons show ?thesis by simp
  next
    case (Some x)
    let ?h4 = "add_masked nl (add_masked ''</obj>'' (add_masked (py_str x)
               (add_masked (''<obj id='' @ v @ ''>'') h)))"
    obtain fs where fs: "store (ObjSpan_handler ?h4 vs) = store ?h4 @ fs"
      "\<forall>f \<in> set fs. frag_type f = FROZEN"
      using Cons[of ?h4] by blast
    have "\<exists>gs. store ?h4 = store h @ gs \<and> (\<forall>f \<in> set gs. frag_type f = FROZEN)"
      by (simp add: store_add_masked)
    then obtain gs where gs: "store ?h4 = store h @ gs" "\<forall>f \<in> set gs. frag_type f = FROZEN"
      by blast
    have "store (ObjSpan_handler h (v # vs)) = store h @ (gs @ fs)"
      using Some fs(1) gs(1) by simp
    moreover have "\<forall>f \<in> set (gs @ fs). frag_type f = FROZEN" using fs(2) gs(2) by auto
    ultimately show ?thesis by blast
  qed
qed

lemma open_fence_fields:
  "errors (open_fence F h) = errors h" "env (open_fence F h) = env h"
  "cur_ego (open_fence F h) = cur_ego h"
  by (simp_all add: open_fence_def add_masked_def add_frag_fields)

lemma store_open_fence:
  "store (open_fence F h) = store h @
     (if F \<noteq> [] then [\<lparr>frag_text = ''<'' @ F @ ''>'', frag_ego = Some (cur_ego h), frag_type = FROZEN\<rparr>] else [])"
  by (simp add: open_fence_def store_add_masked)

lemma store_SampleSpan:
  "\<exists>post. store (SampleSpan_handler lm h b F) = store (open_fence F h) @ post
      \<and> length post \<le> 1 \<and> (\<forall>f \<in> set post. frag_type f = REINFORCE)"
  by (auto simp: SampleSpan_handler_def Let_def store_add_reinforced split: option.splits)

subsection \<open>Errors, masks and egos are kept by every step\<close>

lemma keeps_refl: "keeps h h"
  by (simp add: keeps_def mask_of_def)

lemma keeps_trans: "keeps h h1 \<Longrightarrow> keeps h1 h2 \<Longrightarrow> keeps h h2"
  unfolding keeps_def mask_of_def
  by (metis (no_types, lifting) length_map length_take min.absorb2 nat_le_linear take_all take_take min.commute)

lemma keeps_errors: "keeps h h' \<Longrightarrow> errors h' = errors h"
  by (simp add: keeps_def)

lemma keeps_masks:
  "keeps h h' \<Longrightarrow> take (length (store h)) (map frag_type (store h')) = map frag_type (store h)"
proof -
  assume "keeps h h'"
  then have "take (length (store h)) (mask_of h') = mask_of h" by (simp add: keeps_def)
  then have "map fst (take (length (store h)) (mask_of h')) = map fst (mask_of h)" by simp
  then show ?thesis by (simp add: mask_of_def take_map comp_def)
qed

lemma keeps_add_frag: "keeps h (add_frag ty txt h)"
  by (simp add: keeps_def mask_of_def add_frag_store add_frag_fields)

lemma keeps_ObjSpan: "keeps h (ObjSpan_handler h vs)"
proof (induction vs arbitrary: h)
  case Nil
  show ?case by (simp add: keeps_refl)
next
  case (Cons v vs)
  show ?case
  proof (cases "env h v")
    case None
    with Cons show ?thesis by simp
  next
    case (Some x)
    let ?h4 = "add_masked nl (add_masked ''</obj>'' (add_masked (py_str x)
               (add_masked (''<obj id='' @ v @ ''>'') h)))"
    have "keeps h ?h4"
      unfolding add_masked_def
      by (blast intro: keeps_trans keeps_add_frag)
    moreover have "keeps ?h4 (ObjSpan_handler ?h4 vs)" by (rule Cons)
    ultimately show ?thesis using Some by (auto intro: keeps_trans)
  qed
qed

lemma keeps_env_upd: "keeps h h1 \<Longrightarrow> keeps h (h1\<lparr>env := e\<rparr>)"
  by (simp add: keeps_def mask_of_def)

lemma keeps_open_fence: "keeps h (open_fence fnc h)"
  by (simp add: open_fence_def keeps_refl add_masked_def keeps_add_frag)

lemma keeps_SampleSpan: "keeps h (SampleSpan_handler lm h b fnc)"
proof -
  let ?h1 = "open_fence fnc h"
  have 1: "keeps h ?h1" by (rule keeps_open_fence)
  have 2: "keeps ?h1 (add_reinforced t ?h1)" for t
    unfolding add_reinforced_def by (rule keeps_add_frag)
  show ?thesis
    unfolding SampleSpan_handler_def Let_def
    using 1 keeps_trans[OF 1 2]
    by (auto split: option.splits intro: keeps_env_upd)
qed

lemma keeps_set_text: "keeps h (set_text a txt h)"
  by (cases "a < length (store h)")
     (simp_all add: keeps_def mask_of_def set_text_def map_update list_update_same_conv nth_list_update list_eq_iff_nth_eq)

lemma keeps_optimize_block: "optimize_block spans i h = Inr h' \<Longrightarrow> keeps h h'"
  unfolding optimize_block_def Let_def
  by (auto split: if_splits intro: keeps_refl keeps_trans keeps_set_text)

lemma keeps_phase1: "phase1 lm spans h = Inr h' \<Longrightarrow> keeps h h'"
proof (induction lm spans h rule: phase1.induct)
  case (2 lm b cn bd rest h)
  then show ?case
    by (auto split: option.splits pyval.splits simp: keeps_def mask_of_def)
qed (auto simp: keeps_refl)

lemma keeps_phase3: "phase3 h = Inr h' \<Longrightarrow> h' = h"
  by (auto simp: phase3_def split: list.splits)

lemma keeps_fields:
  "keeps h h1 \<Longrightarrow> keeps h (h1\<lparr>active_span := x\<rparr>)"
  "keeps h h1 \<Longrightarrow> keeps h (h1\<lparr>holowares := y\<rparr>)"
  "keeps h h1 \<Longrightarrow> keeps h (h1\<lparr>cur_ego := z\<rparr>)"
  "keeps (h\<lparr>active_span := x\<rparr>) h1 \<Longrightarrow> keeps h h1"
  "keeps (h\<lparr>holowares := y\<rparr>) h1 \<Longrightarrow> keeps h h1"
  by (simp_all add: keeps_def mask_of_def)

lemma keeps_new_context: "keeps h (new_context h)"
  by (simp add: keeps_def mask_of_def new_context_def)

lemma keeps_eval:
  "(handle lm h sp = Inr h' \<longrightarrow> keeps h h')"
  "(main_walk lm spans i rest h = Inr h' \<longrightarrow> keeps h h')"
  "(call_holoware lm spans h = Inr h' \<longrightarrow> keeps h h')"
proof (induction lm h sp and lm spans i rest h and lm spans h arbitrary: h' and h' and h'
    rule: handle_main_walk_call_holoware.induct)
  case (1 lm h b t)
  then show ?case by (auto simp: add_masked_def keeps_add_frag)
next
  case (2 lm h b vs)
  then show ?case by (auto simp: keeps_ObjSpan)
next
  case (3 lm h b fnc)
  then show ?case by (auto simp: keeps_SampleSpan)
next
  case (4 lm h b tr)
  then show ?case by (auto intro: keeps_fields keeps_new_context)
next
  case (5 lm h b e)
  then show ?case by (auto intro: keeps_fields keeps_refl)
next
  case (6 lm h b cn bd)
  then show ?case
    by (auto split: option.splits if_splits simp: keeps_refl add_masked_def keeps_add_frag)
next
  case (7 lm spans i h)
  then show ?case by (simp add: keeps_refl)
next
  case (8 lm spans i sp rest h)
  show ?case
  proof
    assume a: "main_walk lm spans i (sp # rest) h = Inr h'"
    then obtain h1 h2 where h1: "handle lm (h\<lparr>active_span := Some sp\<rparr>) sp = Inr h1"
      and h2: "optimize_block spans (int i - 1) h1 = Inr h2"
      and h3: "main_walk lm spans (Suc i) rest h2 = Inr h'"
      by (auto split: sum.splits)
    from 8(1) h1 have "keeps h h1" by (auto intro: keeps_fields)
    moreover from h2 have "keeps h1 h2" by (rule keeps_optimize_block)
    moreover from 8(2)[OF h1 h2] h3 have "keeps h2 h'" by simp
    ultimately show "keeps h h'" by (blast intro: keeps_trans)
  qed
next
  case (9 lm spans h)
  show ?case
  proof
    assume a: "call_holoware lm spans h = Inr h'"
    then obtain h1 h2 where h1: "phase1 lm spans (h\<lparr>holowares := holowares h @ [spans]\<rparr>) = Inr h1"
      and h2: "main_walk lm spans 0 spans h1 = Inr h2"
      and h3: "h' = h2\<lparr>active_span := None, holowares := remove1 spans (holowares h2)\<rparr>"
      by (auto split: sum.splits if_splits simp: Let_def dest!: keeps_phase3)
    from h1 have "keeps h h1" by (auto dest: keeps_phase1 intro: keeps_fields)
    moreover from 9[OF h1] h2 have "keeps h1 h2" by simp
    ultimately show "keeps h h'" unfolding h3 by (blast intro: keeps_trans keeps_fields)
  qed
qed

lemma phase1_not_failed: "phase1 lm spans h \<noteq> Inl (EvaluationFailed n)"
  by (induction lm spans h rule: phase1.induct) (auto split: option.splits pyval.splits)

lemma phase3_not_failed: "phase3 h \<noteq> Inl (EvaluationFailed n)"
  by (auto simp: phase3_def split: list.splits)

lemma optimize_block_not_failed: "optimize_block spans i h \<noteq> Inl (EvaluationFailed n)"
  by (auto simp: optimize_block_def Let_def)

lemma failed_eval:
  "(handle lm h sp = Inl (EvaluationFailed n) \<longrightarrow> n = errors h \<and> 0 < n)"
  "(main_walk lm spans i rest h = Inl (EvaluationFailed n) \<longrightarrow> n = errors h \<and> 0 < n)"
  "(call_holoware lm spans h = Inl (EvaluationFailed n) \<longrightarrow> n = errors h \<and> 0 < n)"
proof (induction lm h sp and lm spans i rest h and lm spans h
    rule: handle_main_walk_call_holoware.induct)
  case (6 lm h b cn bd)
  then show ?case by (auto split: option.splits if_splits)
next
  case (8 lm spans i sp rest h)
  show ?case
  proof
    assume a: "main_walk lm spans i (sp # rest) h = Inl (EvaluationFailed n)"
    show "n = errors h \<and> 0 < n"
    proof (cases "handle lm (h\<lparr>active_span := Some sp\<rparr>) sp")
      case (Inl e)
      with a 8(1) show ?thesis by auto
    next
      case (Inr h1)
      then have k1: "keeps (h\<lparr>active_span := Some sp\<rparr>) h1" using keeps_eval(1) by blast
      show ?thesis
      proof (cases "optimize_block spans (int i - 1) h1")
        case (Inl e)
        with a Inr show ?thesis by (auto simp: optimize_block_not_failed)
      next
        case r: (Inr h2)
        then have k2: "keeps h1 h2" by (rule keeps_optimize_block)
        from a Inr r have "main_walk lm spans (Suc i) rest h2 = Inl (EvaluationFailed n)" by simp
        with 8(2)[OF Inr r] have "n = errors h2 \<and> 0 < n" by simp
        with k1 k2 show ?thesis by (auto dest!: keeps_errors)
      qed
    qed
  qed
next
  case (9 lm spans h)
  show ?case
  proof
    assume a: "call_holoware lm spans h = Inl (EvaluationFailed n)"
    show "n = errors h \<and> 0 < n"
    proof (cases "phase1 lm spans (h\<lparr>holowares := holowares h @ [spans]\<rparr>)")
      case (Inl e)
      with a show ?thesis by (auto simp: phase1_not_failed)
    next
      case (Inr h1)
      then have k1: "errors h1 = errors h" by (auto dest!: keeps_phase1 keeps_errors)
      show ?thesis
      proof (cases "main_walk lm spans 0 spans h1")
        case (Inl e)
        with a Inr 9[OF Inr] k1 show ?thesis by auto
      next
        case r: (Inr h2)
        then have "errors h2 = errors h1" using keeps_eval(2) keeps_errors by blast
        with a Inr r k1 show ?thesis
          by (auto simp: Let_def phase3_not_failed split: if_splits sum.splits)
      qed
    qed
  qed
qed auto

subsection \<open>Object spans\<close>

text \<open>
  C1. The claim is that an Obj span stops at the first \<open>var_id\<close> found in \<open>env\<close>. The
  loop of the handler has no \<open>break\<close>: with \<open>a\<close> and \<open>b\<close> both in \<open>env\<close>, the span
  \<open>a|b\<close> emits the four fragments of \<open>a\<close> and then the four fragments of \<open>b\<close>.
\<close>

theorem ObjSpan_emits_every_hit:
  "map_sum id (\<lambda>h. map frag_text (store h))
     (handle null_loom (new_holophore two_vars) (ObjSpan (new_base ''o'') [''a'', ''b'']))
   = Inr [''<obj id=a>'', ''1'', ''</obj>'', nl, ''<obj id=b>'', ''2'', ''</obj>'', nl]"
  by code_simp

subsection \<open>Sample spans\<close>

lemma startswith_take: "startswith (take m s) p \<Longrightarrow> startswith s p"
proof -
  assume a: "startswith (take m s) p"
  then have e: "take (length p) (take m s) = p" by (simp add: startswith_def)
  then have "length p \<le> m"
    by (metis length_take min.cobounded2 min.cobounded1 le_trans)
  with e show ?thesis by (simp add: startswith_def min_def)
qed

lemma sample_payload_spec: "F \<noteq> [] \<Longrightarrow> sample_payload F s = strip_fence F s"
  unfolding sample_payload_def strip_fence_def Let_def
  by (auto dest: startswith_take)

text \<open>
  C4. For a Sample span with id \<open>X\<close> and fence \<open>F\<close> whose \<open>sample()\<close> call returns a
  non-empty string \<open>s\<close>, the handler returns and \<open>env[X]\<close> is then \<open>s\<close> without its leading
  opening tag and its trailing closing tag (each when present), whitespace-trimmed.
\<close>

theorem sample_binds_stripped_payload:
  assumes "span_id b \<noteq> []" and "F \<noteq> []"
    and "loom_sample lm (rollout_view (open_fence F h)) (stop_sequences F) = Some s"
    and "s \<noteq> []"
  shows "\<exists>h'. handle lm h (SampleSpan b F) = Inr h'
           \<and> env h' (span_id b) = Some (PyStr (strip (strip_fence F s)))"
  using assms
  by (simp add: SampleSpan_handler_def Let_def sample_payload_spec)

theorem sample_binds_stripped_payload_witness:
  "map_sum id (\<lambda>h. env h ''compressed'')
     (handle echo_loom (new_holophore Map.empty) (SampleSpan compressed_base ''compress''))
   = Inr (Some (PyStr ''data''))"
proof -
  have 1: "span_id compressed_base \<noteq> []" by (simp add: compressed_base_def new_base_def)
  have 2: "''compress'' \<noteq> []" by simp
  have 3: "loom_sample echo_loom
      (rollout_view (open_fence ''compress'' (new_holophore Map.empty)))
      (stop_sequences ''compress'') = Some ''<compress> data </compress>''"
    by (simp add: echo_loom_def)
  have 4: "''<compress> data </compress>'' \<noteq> []" by simp
  from sample_binds_stripped_payload [OF 1 2 3 4]
  obtain h' where h: "handle echo_loom (new_holophore Map.empty) (SampleSpan compressed_base ''compress'') = Inr h'"
    and e: "env h' (span_id compressed_base) = Some (PyStr (strip (strip_fence ''compress'' ''<compress> data </compress>'')))"
    by blast
  have s: "strip (strip_fence ''compress'' ''<compress> data </compress>'') = ''data''"
    by (simp add: strip_fence_def startswith_def endswith_def strip_def lstrip_def rstrip_def is_space_def)
  have i: "span_id compressed_base = ''compressed''" by (simp add: compressed_base_def new_base_def)
  show ?thesis unfolding h using e s i by simp
qed

text \<open>
  C2, as amended. When the \<open>sample()\<close> call of a Sample span returns null or an empty
  string, the handler returns at once: \<open>errors\<close> and \<open>env\<close> are as before and the only
  fragment of the span is the FROZEN opening tag, added before the call when a fence is
  set. The main walk goes on with the spans that follow. A call of the template raises
  \<open>EvaluationFailed\<close> only with the value that \<open>errors\<close> had when it started, that value
  being positive; when phase 1 and the main walk return, \<open>errors\<close> is as at the start
  and the call raises \<open>EvaluationFailed\<close> if and only if it is positive.
\<close>

theorem failed_sample_skipped:
  "(loom_sample lm (rollout_view (open_fence F h)) (stop_sequences F) \<in> {None, Some []} \<longrightarrow>
      handle lm h (SampleSpan b F) = Inr (open_fence F h)
      \<and> errors (open_fence F h) = errors h \<and> env (open_fence F h) = env h
      \<and> emitted h (open_fence F h) =
          (if F \<noteq> [] then [\<lparr>frag_text = ''<'' @ F @ ''>'', frag_ego = Some (cur_ego h),
                               frag_type = FROZEN\<rparr>] else []))
   \<and> (loom_sample lm (rollout_view (open_fence F (h\<lparr>active_span := Some (SampleSpan b F)\<rparr>)))
         (stop_sequences F) \<in> {None, Some []} \<longrightarrow>
      main_walk lm spans i (SampleSpan b F # rest) h =
        (case optimize_block spans (int i - 1)
                (open_fence F (h\<lparr>active_span := Some (SampleSpan b F)\<rparr>)) of
           Inl e \<Rightarrow> Inl e
         | Inr h2 \<Rightarrow> main_walk lm spans (Suc i) rest h2))
   \<and> (\<forall>n. call_holoware lm spans h = Inl (EvaluationFailed n) \<longrightarrow> n = errors h \<and> 0 < n)
   \<and> (\<forall>h1 h2. phase1 lm spans (h\<lparr>holowares := holowares h @ [spans]\<rparr>) = Inr h1
          \<and> main_walk lm spans 0 spans h1 = Inr h2 \<longrightarrow>
        errors h2 = errors h
        \<and> ((\<exists>n. call_holoware lm spans h = Inl (EvaluationFailed n)) = (0 < errors h2)))"
proof (intro conjI impI allI)
  assume "loom_sample lm (rollout_view (open_fence F h)) (stop_sequences F) \<in> {None, Some []}"
  then show "handle lm h (SampleSpan b F) = Inr (open_fence F h)"
    by (auto simp: SampleSpan_handler_def Let_def)
next
  show "errors (open_fence F h) = errors h" "env (open_fence F h) = env h"
    by (simp_all add: open_fence_fields)
next
  show "emitted h (open_fence F h) =
          (if F \<noteq> [] then [\<lparr>frag_text = ''<'' @ F @ ''>'', frag_ego = Some (cur_ego h),
                               frag_type = FROZEN\<rparr>] else [])"
    by (rule emitted_append) (rule store_open_fence)
next
  assume "loom_sample lm (rollout_view (open_fence F (h\<lparr>active_span := Some (SampleSpan b F)\<rparr>)))
         (stop_sequences F) \<in> {None, Some []}"
  then show "main_walk lm spans i (SampleSpan b F # rest) h =
        (case optimize_block spans (int i - 1)
                (open_fence F (h\<lparr>active_span := Some (SampleSpan b F)\<rparr>)) of
           Inl e \<Rightarrow> Inl e
         | Inr h2 \<Rightarrow> main_walk lm spans (Suc i) rest h2)"
    by (auto simp: SampleSpan_handler_def Let_def)
next
  fix n assume "call_holoware lm spans h = Inl (EvaluationFailed n)"
  then show "n = errors h" "0 < n" using failed_eval(3) by blast+
next
  fix h1 h2
  assume a: "phase1 lm spans (h\<lparr>holowares := holowares h @ [spans]\<rparr>) = Inr h1
          \<and> main_walk lm spans 0 spans h1 = Inr h2"
  then have "errors h1 = errors h" by (auto dest!: keeps_phase1 keeps_errors)
  moreover from a have "errors h2 = errors h1" using keeps_eval(2) keeps_errors by blast
  ultimately show e: "errors h2 = errors h" by simp
  from a show "(\<exists>n. call_holoware lm spans h = Inl (EvaluationFailed n)) = (0 < errors h2)"
    by (auto simp: Let_def phase3_not_failed split: sum.splits)
qed

theorem failed_sample_skipped_witness:
  "loom_sample null_loom (rollout_view (open_fence ''think'' (new_holophore Map.empty)))
       (stop_sequences ''think'') \<in> {None, Some []}
   \<and> handle null_loom (new_holophore Map.empty) (SampleSpan (new_base []) ''think'')
       = Inr (open_fence ''think'' (new_holophore Map.empty))
   \<and> errors (open_fence ''think'' (new_holophore Map.empty)) = 0
   \<and> emitted (new_holophore Map.empty) (open_fence ''think'' (new_holophore Map.empty))
       = [\<lparr>frag_text = ''<think>'', frag_ego = Some ''system'', frag_type = FROZEN\<rparr>]
   \<and> call_holoware null_loom fenced_sample (new_holophore Map.empty) \<noteq> Inl (EvaluationFailed 0)"
proof -
  let ?h = "new_holophore Map.empty"
  note t = failed_sample_skipped [of null_loom "''think''" ?h "new_base []" fenced_sample 1 "[]"]
  have s: "loom_sample null_loom (rollout_view (open_fence ''think'' ?h))
       (stop_sequences ''think'') \<in> {None, Some []}"
    by (simp add: null_loom_def)
  have e0: "errors ?h = 0" "cur_ego ?h = ''system''" by (simp_all add: new_holophore_def)
  note a = t [THEN conjunct1, THEN mp, OF s]
  note 1 = a [THEN conjunct1]
  have 2: "errors (open_fence ''think'' ?h) = 0"
    using a [THEN conjunct2, THEN conjunct1] e0(1) by simp
  have 3: "emitted ?h (open_fence ''think'' ?h)
       = [\<lparr>frag_text = ''<think>'', frag_ego = Some ''system'', frag_type = FROZEN\<rparr>]"
    using a [THEN conjunct2, THEN conjunct2, THEN conjunct2] e0(2) by simp
  note c = t [THEN conjunct2, THEN conjunct2, THEN conjunct1, THEN spec, of 0]
  have 4: "call_holoware null_loom fenced_sample ?h \<noteq> Inl (EvaluationFailed 0)"
    using c by blast
  from s 1 2 3 4 show ?thesis by blast
qed

text \<open>
  C2 as stated fails: with a sampler that returns null, the evaluation of a fenced
  sampler tag on a new phore returns, \<open>errors\<close> is 0 at the end, and the opening tag of
  the span is in the rollout.
\<close>

theorem failed_sample_not_counted:
  "map_sum id (\<lambda>h. (errors h, map frag_text (store h)))
     (call_holoware null_loom fenced_sample (new_holophore Map.empty))
   = Inr (0, [''<think>''])"
  by code_simp

subsection \<open>Masks\<close>

text \<open>
  C5, as amended. A Sample span emits, when it has a fence, first the FROZEN opening
  tag, and then at most one more fragment, which is REINFORCE; every fragment that a
  Text span, an Obj span or a Class span whose bound object defines \<open>__holo__\<close> emits is
  FROZEN; an Ego or Reset span emits none. The evaluation of a template leaves the masks
  of the fragments that exist as they are.
\<close>

theorem span_emission_masks:
  "(handle lm h sp = Inr h' \<longrightarrow>
      (case sp of
         SampleSpan b F \<Rightarrow>
           (\<exists>post. emitted h h' =
               (if F \<noteq> [] then [\<lparr>frag_text = ''<'' @ F @ ''>'', frag_ego = Some (cur_ego h),
                                   frag_type = FROZEN\<rparr>] else []) @ post
              \<and> length post \<le> 1 \<and> (\<forall>f \<in> set post. frag_type f = REINFORCE))
       | TextSpan b t \<Rightarrow> (\<forall>f \<in> set (emitted h h'). frag_type f = FROZEN)
       | ObjSpan b vs \<Rightarrow> (\<forall>f \<in> set (emitted h h'). frag_type f = FROZEN)
       | ClassSpan b cn bd \<Rightarrow>
           ((\<exists>obj. map_of (span_bindings h) (uuid b) = Some obj \<and> has_holo obj)
             \<longrightarrow> (\<forall>f \<in> set (emitted h h'). frag_type f = FROZEN))
       | _ \<Rightarrow> emitted h h' = []))
   \<and> (call_holoware lm spans h = Inr h' \<longrightarrow>
        take (length (store h)) (map frag_type (store h')) = map frag_type (store h))"
proof (intro conjI impI)
  assume a: "handle lm h sp = Inr h'"
  show "case sp of
         SampleSpan b F \<Rightarrow>
           (\<exists>post. emitted h h' =
               (if F \<noteq> [] then [\<lparr>frag_text = ''<'' @ F @ ''>'', frag_ego = Some (cur_ego h),
                                   frag_type = FROZEN\<rparr>] else []) @ post
              \<and> length post \<le> 1 \<and> (\<forall>f \<in> set post. frag_type f = REINFORCE))
       | TextSpan b t \<Rightarrow> (\<forall>f \<in> set (emitted h h'). frag_type f = FROZEN)
       | ObjSpan b vs \<Rightarrow> (\<forall>f \<in> set (emitted h h'). frag_type f = FROZEN)
       | ClassSpan b cn bd \<Rightarrow>
           ((\<exists>obj. map_of (span_bindings h) (uuid b) = Some obj \<and> has_holo obj)
             \<longrightarrow> (\<forall>f \<in> set (emitted h h'). frag_type f = FROZEN))
       | _ \<Rightarrow> emitted h h' = []"
  proof (cases sp)
    case (ContextResetSpan b tr)
    with a show ?thesis by (auto simp: emitted_def new_context_def)
  next
    case (EgoSpan b e)
    with a show ?thesis by (auto simp: emitted_def)
  next
    case (SampleSpan b F)
    obtain post where p: "store (SampleSpan_handler lm h b F) = store (open_fence F h) @ post"
      "length post \<le> 1" "\<forall>f \<in> set post. frag_type f = REINFORCE"
      using store_SampleSpan by blast
    from a SampleSpan have h': "h' = SampleSpan_handler lm h b F" by simp
    have "emitted h h' =
        (if F \<noteq> [] then [\<lparr>frag_text = ''<'' @ F @ ''>'', frag_ego = Some (cur_ego h),
                                   frag_type = FROZEN\<rparr>] else []) @ post"
      unfolding h' by (rule emitted_append) (simp add: p(1) store_open_fence)
    with p SampleSpan show ?thesis by auto
  next
    case (TextSpan b t)
    with a show ?thesis by (auto simp: emitted_def store_add_masked)
  next
    case (ObjSpan b vs)
    obtain fs where "store (ObjSpan_handler h vs) = store h @ fs" "\<forall>f \<in> set fs. frag_type f = FROZEN"
      using store_ObjSpan by blast
    with a ObjSpan show ?thesis by (auto simp: emitted_def)
  next
    case (ClassSpan b cn bd)
    with a show ?thesis
      by (auto simp: emitted_def store_add_masked split: option.splits if_splits)
  qed
next
  assume "call_holoware lm spans h = Inr h'"
  then have "keeps h h'" using keeps_eval(3) by blast
  then show "take (length (store h)) (map frag_type (store h')) = map frag_type (store h)"
    by (rule keeps_masks)
qed

theorem span_emission_masks_witness:
  "handle mock_loom (new_holophore Map.empty) (TextSpan (new_base ''t'') ''Hello'')
     = Inr (add_masked ''Hello'' (new_holophore Map.empty))
   \<and> emitted (new_holophore Map.empty) (add_masked ''Hello'' (new_holophore Map.empty))
     = [\<lparr>frag_text = ''Hello'', frag_ego = Some ''system'', frag_type = FROZEN\<rparr>]
   \<and> frag_type (hd (emitted (new_holophore Map.empty)
        (add_masked ''Hello'' (new_holophore Map.empty)))) = FROZEN"
proof -
  let ?h = "new_holophore Map.empty"
  let ?h' = "add_masked ''Hello'' ?h"
  note t = span_emission_masks [of mock_loom ?h "TextSpan (new_base ''t'') ''Hello''" ?h' "[]"]
  have 1: "handle mock_loom ?h (TextSpan (new_base ''t'') ''Hello'') = Inr ?h'" by simp
  have 2: "emitted ?h ?h' = [\<lparr>frag_text = ''Hello'', frag_ego = Some ''system'', frag_type = FROZEN\<rparr>]"
    by (simp add: emitted_def store_add_masked new_holophore_def)
  from t 1 have "\<forall>f \<in> set (emitted ?h ?h'). frag_type f = FROZEN" by simp
  then have 3: "frag_type (hd (emitted ?h ?h')) = FROZEN" using 2 by simp
  from 1 2 3 show ?thesis by blast
qed

text \<open>
  C5 as stated fails: a Sample span with the fence \<open>think\<close> emits a FROZEN fragment and
  then a REINFORCE one.
\<close>

theorem fenced_sample_masks:
  "map_sum id (\<lambda>h. map frag_type (emitted (new_holophore Map.empty) h))
     (handle mock_loom (new_holophore Map.empty) (SampleSpan (new_base []) ''think''))
   = Inr [FROZEN, REINFORCE]"
  by code_simp

subsection \<open>Think tags\<close>

text \<open>
  C3. The claim is that a fragment of the shape \<^verbatim>\<open><think>\s*\n*\s*</think>\<close> is rewritten
  to \<^verbatim>\<open><think></think>\<close> during evaluation. \<open>Holoware.__call__\<close> defines
  \<open>optimize_think_tags\<close> and never calls it: after the evaluation of a template whose
  text is such a block, the fragment of the context is as it was emitted. A call of
  \<open>optimize_think_tags\<close> on the final state would leave the context as it is, too.
\<close>

theorem think_block_never_collapsed:
  "map_sum id rollout_view (call_holoware null_loom empty_think (new_holophore Map.empty))
     = Inr [ [\<lparr>frag_text = ''<think>'' @ nl @ ''</think>'', frag_ego = Some ''assistant'',
              frag_type = FROZEN\<rparr>]]
   \<and> map_sum id (\<lambda>h. rollout_view (optimize_think_tags empty_think 1 h))
       (call_holoware null_loom empty_think (new_holophore Map.empty))
     = Inr [ [\<lparr>frag_text = ''<think>'' @ nl @ ''</think>'', frag_ego = Some ''assistant'',
              frag_type = FROZEN\<rparr>]]"
  by code_simp

section \<open>Properties of the parser\<close>

lemma split_char_ne: "split_char c s \<noteq> []"
  by (induction s) (auto split: list.splits)

lemma join_cons_char: "join sep ((x # l) # ls) = x # join sep (l # ls)"
  by (cases ls) auto

lemma join_split_char: "join [c] (split_char c s) = s"
proof (induction s)
  case Nil
  show ?case by simp
next
  case (Cons x xs)
  obtain l ls where l: "split_char c xs = l # ls"
    using split_char_ne[of c xs] by (cases "split_char c xs") auto
  show ?case using Cons l by (auto simp: join_cons_char)
qed

lemma filter_comments_id:
  "\<forall>line \<in> set (split_char (CHR 0x0A) S). \<not> startswith (strip line) ''#'' \<Longrightarrow>
   filter_comments S = S"
  by (simp add: filter_comments_def nl_def join_split_char cong: filter_cong)

lemma find_idx_None: "\<not> contains s p \<Longrightarrow> find_idx s p = None"
  by (induction s) auto

lemma replace_absent: "\<not> contains s old \<Longrightarrow> replace s old new = s"
  by (induction s old new rule: replace.induct) auto

lemma startswith_Cons: "startswith (x # s) (c # p) = (x = c \<and> startswith s p)"
  by (auto simp: startswith_def)

lemma contains_tail: "contains s (c # p) \<Longrightarrow> contains s p"
proof (induction s)
  case Nil
  then show ?case by simp
next
  case (Cons x xs)
  show ?case
  proof (cases "startswith (x # xs) (c # p)")
    case True
    then have "startswith xs p" by (simp add: startswith_Cons)
    then have "contains xs p" by (cases xs) (auto simp: startswith_def)
    then show ?thesis by simp
  next
    case False
    with Cons show ?thesis by auto
  qed
qed

lemma finalize_single: "finalize_loop [TextSpan b t] 0 None = [TextSpan b t]"
  by simp

text \<open>
  C6, as amended. For every string \<open>S\<close> that has no occurrence of \<^verbatim>\<open><|\<close>, no two
  backslashes in a row, no line whose first non-blank character is \<open>#\<close>, and that is
  not blank, parsing \<open>S\<close> yields exactly one Text span, whose text is \<open>S\<close>.
\<close>

theorem plain_text_single_span:
  assumes "\<not> contains S ''<|''"
    and "\<not> contains S [bslash, bslash]"
    and "\<forall>line \<in> set (split_char (CHR 0x0A) S). \<not> startswith (strip line) ''#''"
    and "strip S \<noteq> []"
  shows "parse (Suc fuel) lib S = Inr [TextSpan (new_base (gen_uuid lib 0)) S]"
proof -
  have ne: "S \<noteq> []" using assms(4) by (auto simp: strip_def lstrip_def rstrip_def)
  have fc: "filter_comments S = S" using assms(3) by (rule filter_comments_id)
  have nf: "find_next_span_start S 0 = None"
    using assms(1) by (simp add: find_from_def find_idx_None)
  have r1: "replace S [bslash, bslash] [bslash] = S" using assms(2) by (rule replace_absent)
  have "\<not> contains S (bslash # ''<|'')" using assms(1) contains_tail by blast
  then have r2: "replace S (bslash # ''<|'') ''<|'' = S" by (rule replace_absent)
  let ?p = "\<lparr>p_code = S, p_pos = 0, p_spans = [], p_ego = None,
              p_start_with_system = False, p_next = 0\<rparr>"
  have pt: "parse_text lib S ?p = ?p\<lparr>p_next := Suc 0, p_spans := [TextSpan (new_base (gen_uuid lib 0)) S]\<rparr>"
    using ne assms(4) by (simp add: parse_text_def r1 r2)
  have "parse_loop (Suc fuel) lib ?p = Inr (parse_text lib S ?p)"
    using ne nf by simp
  then show ?thesis
    unfolding parse_def
    by (simp add: fc pt finalize_text_span_def del: parse_loop.simps)
qed

theorem plain_text_single_span_witness:
  "parse 1 plain_lib ''Hello, world!'' = Inr [TextSpan (new_base ''u'') ''Hello, world!'']"
proof -
  have 1: "\<not> contains ''Hello, world!'' ''<|''" by (simp add: startswith_def)
  have 2: "\<not> contains ''Hello, world!'' [bslash, bslash]" by (simp add: startswith_def bslash_def)
  have 3: "\<forall>line \<in> set (split_char (CHR 0x0A) ''Hello, world!'').
            \<not> startswith (strip line) ''#''"
    by (simp add: startswith_def strip_def lstrip_def rstrip_def is_space_def)
  have 4: "strip ''Hello, world!'' \<noteq> []"
    by (simp add: strip_def lstrip_def rstrip_def is_space_def)
  have "gen_uuid plain_lib 0 = ''u''" by (simp add: plain_lib_def)
  with plain_text_single_span [OF 1 2 3 4, of 0 plain_lib] show ?thesis by simp
qed

text \<open>
  C6 as stated fails: a string of three blanks has no \<^verbatim>\<open><|\<close> and no backslash, and
  parsing it yields no span.
\<close>

theorem blank_text_no_span:
  "\<not> contains ''   '' ''<|'' \<and> parse 1 plain_lib ''   '' = Inr []"
  by code_simp

subsection \<open>The id suffix of a tag\<close>

text \<open>
  C7. The claim is that the suffix \<open>:id\<close> of the base of any tag becomes the \<open>id\<close> of the
  span. Only \<open>_build_ego_or_sampler\<close> splits the base at the colon, and it gives the
  suffix to the \<open>id\<close> of the Sample span alone (the Ego span gets it as \<open>uuid\<close>); the
  class and object builders keep the colon and the suffix in the name, with an empty
  \<open>id\<close>, and a reset sigil with a suffix is no reset sigil but an object name.
\<close>

theorem id_suffix_only_on_sampler:
  "build_span plain_lib 0 ''MyClass:handle''
     = Inr ([ClassSpan (new_base ''u'') ''MyClass:handle'' None], 1)
   \<and> build_span plain_lib 0 ''var:handle''
     = Inr ([ObjSpan (new_base ''u'') [''var:handle'']], 1)
   \<and> build_span plain_lib 0 ''+++:handle''
     = Inr ([ObjSpan (new_base ''u'') [''+++:handle'']], 1)
   \<and> build_span plain_lib 0 ''@_@:handle <>think''
     = Inr ([EgoSpan \<lparr>uuid = ''handle'', span_id = [], kargs = [], kwargs = []\<rparr> ''assistant'',
             SampleSpan \<lparr>uuid = ''handle'', span_id = ''handle'', kargs = [], kwargs = []\<rparr>
               ''think''], 0)"
  by code_simp

end
